theory Spec2Isabelle
  imports Complex_Main "HOL-Library.Sublist"
begin

section \<open>OuteTTS interface (outetts/version/v1/interface.py)\<close>

text \<open>
  The interface glues a prompt processor, a language-model backend and an audio codec.
  The wrapped libraries are parameters of the model; the code of the interface itself
  (validation, the chunk assembler, the text splitter, the producer side of the playback
  queue, the speaker builder) is translated function by function.
\<close>

subsection \<open>Strings\<close>

text \<open>
  A Python \<open>str\<close> is a sequence of Unicode code points; \<open>len\<close> counts code points.
  The splitter's delimiters contain code points beyond ASCII, so a string is a list of
  code-point numbers.
\<close>

type_synonym ustring = "nat list"

text \<open>
  \<open>str.isspace\<close> for one code point, as \<open>str.strip()\<close> without argument uses it:
  U+0009..U+000D, U+001C..U+001F, U+0020, U+0085, U+00A0, U+1680, U+2000..U+200A, U+2028,
  U+2029, U+202F, U+205F, U+3000.
\<close>

definition is_space :: "nat \<Rightarrow> bool" where
  "is_space c \<longleftrightarrow>
     (9 \<le> c \<and> c \<le> 13) \<or> (28 \<le> c \<and> c \<le> 32) \<or> c = 133 \<or> c = 160 \<or> c = 5760 \<or>
     (8192 \<le> c \<and> c \<le> 8202) \<or> c = 8232 \<or> c = 8233 \<or> c = 8239 \<or> c = 8287 \<or> c = 12288"

definition strip :: "ustring \<Rightarrow> ustring" where
  "strip s = rev (dropWhile is_space (rev (dropWhile is_space s)))"

subsection \<open>split_text\<close>

text \<open>
  The default delimiters, in the order of the source:
  \<open>'.', '?', '!', ';', ':', '\n', '\r\n', '\r', '\t'\<close>, then the ideographic full stop
  U+3002, the fullwidth question mark U+FF1F, the fullwidth exclamation mark U+FF01 and
  the horizontal ellipsis U+2026.
\<close>

definition default_delimiters :: "ustring list" where
  "default_delimiters =
     [[46], [63], [33], [59], [58], [10], [13, 10], [13], [9],
      [12290], [65311], [65281], [8230]]"

text \<open>
  \<open>pattern = '|'.join(map(re.escape, delimiters))\<close> is an alternation of literals. At
  one position the regex engine tries the alternatives from left to right and takes the
  first that is a prefix of the remaining text. \<open>adv\<close> is the engine's
  \<open>must_advance\<close> flag: set for the first position tried after an empty match, where an
  empty match is refused.
\<close>

fun match_alt :: "bool \<Rightarrow> ustring list \<Rightarrow> ustring \<Rightarrow> ustring option" where
  "match_alt adv [] s = None"
| "match_alt adv (d # ds) s =
     (if take (length d) s = d \<and> (\<not> adv \<or> d \<noteq> []) then Some d else match_alt adv ds s)"

text \<open>
  \<open>re.split\<close> (Python 3.7 and later, where empty matches split too): search the leftmost
  match from the current position; the text skipped on the way is the next piece; go on
  behind the match. When no match is left, the rest of the text is the last piece.
  \<open>piece\<close> holds the characters skipped since the last match.
\<close>

function re_split_from :: "ustring list \<Rightarrow> bool \<Rightarrow> ustring \<Rightarrow> ustring \<Rightarrow> ustring list" where
  "re_split_from alts adv piece s =
     (case match_alt adv alts s of
        Some d \<Rightarrow> piece # re_split_from alts (d = []) [] (drop (length d) s)
      | None \<Rightarrow>
          (case s of
             [] \<Rightarrow> [piece]
           | c # cs \<Rightarrow> re_split_from alts False (piece @ [c]) cs))"
  by pat_completeness auto

termination re_split_from
proof (relation "measure (\<lambda>(alts, adv, piece, s). 2 * length s + (if adv then 0 else 1))")
  show "wf (measure (\<lambda>(alts, adv, piece, s). 2 * length s + (if adv then 0 else 1)))"
    by simp
next
  fix alts :: "ustring list" and adv :: bool and piece s d :: ustring
  assume m: "match_alt adv alts s = Some d"
  have "match_alt adv alts s = Some d \<Longrightarrow> take (length d) s = d \<and> (adv \<longrightarrow> d \<noteq> [])"
    by (induction alts) (auto split: if_splits)
  with m have t: "take (length d) s = d" and a: "adv \<longrightarrow> d \<noteq> []"
    by simp_all
  from t have "length (take (length d) s) = length d"
    by simp
  then have le: "length d \<le> length s"
    by simp
  show "((alts, d = [], [], drop (length d) s), (alts, adv, piece, s))
          \<in> measure (\<lambda>(alts, adv, piece, s). 2 * length s + (if adv then 0 else 1))"
  proof (cases "d = []")
    case True
    with a show ?thesis by simp
  next
    case False
    then have k: "1 \<le> length d" by (cases d) simp_all
    from le k have "Suc (2 * (length s - length d)) < 2 * length s"
      and "length s - length d < length s"
      by arith+
    with False show ?thesis by simp
  qed
next
  fix alts :: "ustring list" and adv :: bool and piece s cs :: ustring and c :: nat
  assume "s = c # cs"
  then show "((alts, False, piece @ [c], cs), (alts, adv, piece, s))
          \<in> measure (\<lambda>(alts, adv, piece, s). 2 * length s + (if adv then 0 else 1))"
    by simp
qed

text \<open>
  The pattern built from an empty delimiter list is the empty pattern, which matches the
  empty string.
\<close>

definition re_split :: "ustring list \<Rightarrow> ustring \<Rightarrow> ustring list" where
  "re_split delimiters text =
     re_split_from (if delimiters = [] then [[]] else delimiters) False [] text"

definition split_text :: "ustring \<Rightarrow> ustring list option \<Rightarrow> ustring list" where
  "split_text text delimiters =
     (let delimiters = (case delimiters of None \<Rightarrow> default_delimiters | Some ds \<Rightarrow> ds);
          split_result = re_split delimiters text;
          cleaned_sentences = map strip split_result;
          cleaned_sentences = filter (\<lambda>s. s \<noteq> []) cleaned_sentences
      in cleaned_sentences)"

text \<open>
  The pieces of a list of strings occur in a text in order: the first piece is found at
  some position, and the remaining pieces occur in order behind it. Used to state that the
  splitter keeps the order of the text.
\<close>

fun occur_in_order :: "'a list list \<Rightarrow> 'a list \<Rightarrow> bool" where
  "occur_in_order [] t = True"
| "occur_in_order (r # rs) t =
     list_ex (\<lambda>i. take (length r) (drop i t) = r \<and> occur_in_order rs (drop (i + length r) t))
       [0..<Suc (length t)]"

subsection \<open>Errors, events and effects\<close>

text \<open>
  The messages of the \<open>ValueError\<close>s the interface raises itself; the two numbers of
  \<open>Max_length_exceeds\<close> are the requested \<open>max_length\<close> and \<open>max_seq_length\<close>.
\<close>

datatype message =
    Max_length_must_be_specified
  | Max_length_exceeds int int
  | Chunk_size_must_be_at_least_4
  | Transcript_text_is_empty

text \<open>
  What a call into a wrapped library (prompt processor, tokenizer, backend, codec,
  whisper, forced alignment) may raise: an exception of a class derived from
  \<open>Exception\<close>, with an opaque code, or one of the exceptions outside \<open>Exception\<close> that
  reach the calling thread while it runs there, \<open>KeyboardInterrupt\<close> (Ctrl-C) and
  \<open>SystemExit\<close>.
\<close>

datatype raised = Library_exception nat | Keyboard_interrupt | System_exit

text \<open>
  An exception is a value. \<open>ValueError\<close>, \<open>ZeroDivisionError\<close>, \<open>AttributeError\<close> and
  \<open>IndexError\<close> are raised by the code of the interface; \<open>LibraryError\<close>,
  \<open>KeyboardInterrupt\<close> and \<open>SystemExit\<close> come out of a wrapped library.
\<close>

datatype error =
    ValueError message
  | ZeroDivisionError
  | AttributeError
  | IndexError
  | LibraryError nat
  | KeyboardInterrupt
  | SystemExit

fun lib_error :: "raised \<Rightarrow> error" where
  "lib_error (Library_exception c) = LibraryError c"
| "lib_error Keyboard_interrupt = KeyboardInterrupt"
| "lib_error System_exit = SystemExit"

text \<open>
  \<open>isinstance(e, Exception)\<close>, which is what \<open>except Exception\<close> tests:
  \<open>KeyboardInterrupt\<close> and \<open>SystemExit\<close> derive from \<open>BaseException\<close> only.
\<close>

fun is_Exception :: "error \<Rightarrow> bool" where
  "is_Exception KeyboardInterrupt = False"
| "is_Exception SystemExit = False"
| "is_Exception e = True"

type_synonym token = int

text \<open>A dict of extra options, passed through to the backend untouched.\<close>

type_synonym gen_options = "(ustring \<times> ustring) list"

text \<open>\<open>GenerationConfig(temperature, repetition_penalty, max_length, additional_gen_config)\<close>.\<close>

record generation_config =
  gc_temperature :: real
  gc_repetition_penalty :: real
  gc_max_length :: "int option"
  gc_additional_gen_config :: gen_options

text \<open>
  What \<open>prepare_prompt\<close> hands to the backend: a tensor of token ids (InterfaceHF), a
  list of token ids (InterfaceGGUF) or the prompt itself (InterfaceEXL2).
\<close>

datatype backend_input = Tensor_ids "token list" | List_ids "token list" | Prompt_text ustring

text \<open>
  The keyword arguments of one call of \<open>self.model.generate\<close>.
  \<open>bc_additional_dynamic_generator_config\<close> is \<open>None\<close> when the keyword is not passed.
\<close>

record backend_call =
  bc_input_ids :: backend_input
  bc_config :: generation_config
  bc_additional_dynamic_generator_config :: "gen_options option"

text \<open>
  \<open>ModelOutput(audio, sr)\<close>. The audio is a tensor whose last dimension runs over the
  samples; the code only takes its last size and slices its last dimension, so it is the
  list of samples here, and \<open>None\<close> when \<open>get_audio\<close> found no audio tokens. The samples
  themselves are never inspected: their type is a parameter.
\<close>

datatype 's model_output = ModelOutput "'s list option" nat

text \<open>
  The speaker dict built by \<open>create_speaker\<close>: keys \<open>"text"\<close>, \<open>"words"\<close>,
  \<open>"language"\<close>, and for each word \<open>"word"\<close>, \<open>"duration"\<close>, \<open>"codes"\<close>.
\<close>

record word_entry =
  entry_word :: ustring
  entry_duration :: real
  entry_codes :: "token list"

record speaker =
  speaker_text :: ustring
  speaker_words :: "word_entry list"
  speaker_language :: ustring

text \<open>
  One word returned by \<open>CTCForcedAlignment.align\<close>: keys \<open>"word"\<close>, \<open>"x1"\<close> (the end of
  the word, in samples) and \<open>"audio"\<close>.
\<close>

record 's aligned_word =
  aw_word :: ustring
  aw_x1 :: real
  aw_audio :: "'s list"

text \<open>The messages passed to \<open>logger.info\<close>, with the numbers they format.\<close>

datatype info =
    Input_tokens nat
  | Generating_audio
  | Audio_generation_completed
  | Transcription_not_provided
  | Processing_text nat
  | Split_text_into nat nat
  | Stream_segments_is_True
  | Processing_segment nat nat

text \<open>
  What a run does besides returning: calls into the wrapped libraries that perform work,
  log lines, and the producer's operations on the playback queue and thread.
  \<open>Queue_put None\<close> is the sentinel.
\<close>

datatype 's event =
    Whisper_transcribe ustring
  | Ctc_align ustring ustring ustring
  | Ctc_free
  | Codec_encode
  | Codec_decode "token list"
  | Model_generate backend_call
  | Model_generate_stream backend_call
  | Logger_info info
  | Logger_warning_no_audio
  | Logger_error error
  | Queue_created
  | Thread_started
  | Queue_put "'s model_output option"
  | Thread_joined
  | Queue_deleted

text \<open>
  A computation returns a value or raises, and leaves the events that happened until
  then, in order.
\<close>

type_synonym ('s, 'a) eff = "(error + 'a) \<times> 's event list"

definition ret :: "'a \<Rightarrow> ('s, 'a) eff" where
  "ret x = (Inr x, [])"

definition raise :: "error \<Rightarrow> ('s, 'a) eff" where
  "raise e = (Inl e, [])"

definition emit :: "'s event \<Rightarrow> ('s, unit) eff" where
  "emit ev = (Inr (), [ev])"

definition lib :: "raised + 'a \<Rightarrow> ('s, 'a) eff" where
  "lib r = (case r of Inl c \<Rightarrow> (Inl (lib_error c), []) | Inr x \<Rightarrow> (Inr x, []))"

definition and_then :: "('s, 'a) eff \<Rightarrow> ('a \<Rightarrow> ('s, 'b) eff) \<Rightarrow> ('s, 'b) eff" where
  "and_then m f =
     (case m of
        (Inl e, evs) \<Rightarrow> (Inl e, evs)
      | (Inr x, evs) \<Rightarrow> (case f x of (r, evs') \<Rightarrow> (r, evs @ evs')))"

text \<open>The computation \<open>m\<close> run after the events \<open>evs\<close> have happened.\<close>

definition after :: "'s event list \<Rightarrow> ('s, 'a) eff \<Rightarrow> ('s, 'a) eff" where
  "after evs m = (fst m, evs @ snd m)"

subsection \<open>The interface object\<close>

text \<open>
  The attributes of \<open>self\<close> the code reads, and the wrapped libraries as functions that
  return a value or raise (\<open>Inl\<close>):
  \<^item> \<open>config.max_seq_length\<close>, \<open>languages\<close>, \<open>language\<close>, \<open>verbose\<close>, \<open>audio_codec.sr\<close>;
  \<^item> \<open>prompt_processor.get_completion_prompt(text, language, speaker)\<close>,
    \<open>prompt_processor.tokenizer.encode(s, add_special_tokens=False)\<close>,
    \<open>prompt_processor.special_tokens["code_end"]\<close>,
    \<open>prompt_processor.extract_audio_from_tokens(tokens)\<close>;
  \<^item> \<open>audio_codec.decode\<close> on the tensor built from the extracted tokens;
  \<^item> \<open>model.generate\<close>, and \<open>model.generate\<close> with \<open>stream=True\<close>, which yields tokens
    and may raise after them;
  \<^item> \<open>transcribe.transcribe_once(audio_path, model, device)\<close>;
  \<^item> \<open>CTCForcedAlignment(languages, device).align(audio_path, transcript, language)\<close>
    and its \<open>sample_rate\<close>;
  \<^item> \<open>audio_codec.encode(audio_codec.convert_audio_tensor(torch.cat(audios, dim=1),
    sr)).tolist()\<close> as one function of the words' audio and the sample rate;
  \<^item> \<open>frame_index x1 sample_rate\<close> stands for the floating-point expression
    \<open>int(round((x1 / sample_rate) * 75))\<close>, whose rounding is not modelled.
\<close>

record 's interface =
  max_seq_length :: int
  languages :: "ustring list"
  language :: ustring
  verbose :: bool
  audio_codec_sr :: nat
  get_completion_prompt :: "ustring \<Rightarrow> ustring \<Rightarrow> speaker option \<Rightarrow> raised + ustring"
  tokenizer_encode :: "ustring \<Rightarrow> raised + token list"
  special_tokens_code_end :: ustring
  extract_audio_from_tokens :: "token list \<Rightarrow> raised + token list"
  audio_codec_decode :: "token list \<Rightarrow> raised + 's list"
  model_generate :: "backend_call \<Rightarrow> raised + token list"
  model_generate_stream :: "backend_call \<Rightarrow> token list \<times> raised option"
  transcribe_once :: "ustring \<Rightarrow> ustring \<Rightarrow> ustring option \<Rightarrow> raised + ustring"
  ctc_align :: "ustring \<Rightarrow> ustring \<Rightarrow> ustring \<Rightarrow> raised + 's aligned_word list"
  ctc_sample_rate :: nat
  audio_codec_encode :: "'s list list \<Rightarrow> nat \<Rightarrow> raised + token list list list"
  frame_index :: "real \<Rightarrow> nat \<Rightarrow> int"

text \<open>The class of \<open>self\<close>, for the methods the subclasses inherit and override.\<close>

datatype interface_class = InterfaceHF | InterfaceGGUF | InterfaceEXL2

subsection \<open>prepare_prompt, get_audio, check_generation_max_length\<close>

definition InterfaceHF_prepare_prompt ::
  "'s interface \<Rightarrow> ustring \<Rightarrow> speaker option \<Rightarrow> ('s, backend_input) eff" where
  "InterfaceHF_prepare_prompt self text speaker =
     and_then (lib (get_completion_prompt self text (language self) speaker)) (\<lambda>prompt.
     and_then (lib (tokenizer_encode self prompt)) (\<lambda>ids.
     ret (Tensor_ids ids)))"

definition InterfaceGGUF_prepare_prompt ::
  "'s interface \<Rightarrow> ustring \<Rightarrow> speaker option \<Rightarrow> ('s, backend_input) eff" where
  "InterfaceGGUF_prepare_prompt self text speaker =
     and_then (lib (get_completion_prompt self text (language self) speaker)) (\<lambda>prompt.
     and_then (lib (tokenizer_encode self prompt)) (\<lambda>ids.
     ret (List_ids ids)))"

definition InterfaceEXL2_prepare_prompt ::
  "'s interface \<Rightarrow> ustring \<Rightarrow> speaker option \<Rightarrow> ('s, backend_input) eff" where
  "InterfaceEXL2_prepare_prompt self text speaker =
     and_then (lib (get_completion_prompt self text (language self) speaker)) (\<lambda>prompt.
     ret (Prompt_text prompt))"

text \<open>\<open>self.prepare_prompt\<close> in an inherited method: the override of the class of \<open>self\<close>.\<close>

definition prepare_prompt ::
  "interface_class \<Rightarrow> 's interface \<Rightarrow> ustring \<Rightarrow> speaker option \<Rightarrow> ('s, backend_input) eff" where
  "prepare_prompt cls self text speaker =
     (case cls of
        InterfaceHF \<Rightarrow> InterfaceHF_prepare_prompt self text speaker
      | InterfaceGGUF \<Rightarrow> InterfaceGGUF_prepare_prompt self text speaker
      | InterfaceEXL2 \<Rightarrow> InterfaceEXL2_prepare_prompt self text speaker)"

definition get_audio :: "'s interface \<Rightarrow> token list \<Rightarrow> ('s, 's list option) eff" where
  "get_audio self tokens =
     and_then (lib (extract_audio_from_tokens self tokens)) (\<lambda>output.
     if output = [] then
       and_then (emit Logger_warning_no_audio) (\<lambda>_. ret None)
     else
       and_then (emit (Codec_decode output)) (\<lambda>_.
       and_then (lib (audio_codec_decode self output)) (\<lambda>audio.
       ret (Some audio))))"

definition check_generation_max_length :: "'s interface \<Rightarrow> int option \<Rightarrow> ('s, unit) eff" where
  "check_generation_max_length self max_length =
     (case max_length of
        None \<Rightarrow> raise (ValueError Max_length_must_be_specified)
      | Some n \<Rightarrow>
          if n > max_seq_length self
          then raise (ValueError (Max_length_exceeds n (max_seq_length self)))
          else ret ())"

subsection \<open>generate\<close>

text \<open>The two log lines before the generation, printed when \<open>verbose\<close> is set.\<close>

definition log_input_tokens :: "'s interface \<Rightarrow> nat \<Rightarrow> ('s, unit) eff" where
  "log_input_tokens self n =
     (if verbose self then
        and_then (emit (Logger_info (Input_tokens n))) (\<lambda>_. emit (Logger_info Generating_audio))
      else ret ())"

definition log_completed :: "'s interface \<Rightarrow> ('s, unit) eff" where
  "log_completed self =
     (if verbose self then emit (Logger_info Audio_generation_completed) else ret ())"

text \<open>
  \<open>input_ids.size()[-1]\<close> of the tensor, \<open>len(input_ids)\<close> of the list, and
  \<open>len(input_ids)\<close> of the prompt (InterfaceEXL2, where \<open>input_ids\<close> is a string).
\<close>

fun input_size :: "backend_input \<Rightarrow> nat" where
  "input_size (Tensor_ids ids) = length ids"
| "input_size (List_ids ids) = length ids"
| "input_size (Prompt_text prompt) = length prompt"

definition InterfaceHF_generate ::
  "'s interface \<Rightarrow> ustring \<Rightarrow> speaker option \<Rightarrow> real \<Rightarrow> real \<Rightarrow> int option \<Rightarrow> gen_options
     \<Rightarrow> ('s, 's model_output) eff" where
  "InterfaceHF_generate self text speaker temperature repetition_penalty max_length
       additional_gen_config =
     and_then (InterfaceHF_prepare_prompt self text speaker) (\<lambda>input_ids.
     and_then (log_input_tokens self (input_size input_ids)) (\<lambda>_.
     and_then (check_generation_max_length self max_length) (\<lambda>_.
     let call = \<lparr>bc_input_ids = input_ids,
                 bc_config = \<lparr>gc_temperature = temperature,
                              gc_repetition_penalty = repetition_penalty,
                              gc_max_length = max_length,
                              gc_additional_gen_config = additional_gen_config\<rparr>,
                 bc_additional_dynamic_generator_config = None\<rparr> in
     and_then (emit (Model_generate call)) (\<lambda>_.
     and_then (lib (model_generate self call)) (\<lambda>output.
     and_then (get_audio self (drop (input_size input_ids) output)) (\<lambda>audio.
     and_then (log_completed self) (\<lambda>_.
     ret (ModelOutput audio (audio_codec_sr self)))))))))"

definition InterfaceGGUF_generate ::
  "'s interface \<Rightarrow> ustring \<Rightarrow> speaker option \<Rightarrow> real \<Rightarrow> real \<Rightarrow> int option \<Rightarrow> gen_options
     \<Rightarrow> ('s, 's model_output) eff" where
  "InterfaceGGUF_generate self text speaker temperature repetition_penalty max_length
       additional_gen_config =
     and_then (InterfaceGGUF_prepare_prompt self text speaker) (\<lambda>input_ids.
     and_then (log_input_tokens self (input_size input_ids)) (\<lambda>_.
     and_then (check_generation_max_length self max_length) (\<lambda>_.
     let call = \<lparr>bc_input_ids = input_ids,
                 bc_config = \<lparr>gc_temperature = temperature,
                              gc_repetition_penalty = repetition_penalty,
                              gc_max_length = max_length,
                              gc_additional_gen_config = additional_gen_config\<rparr>,
                 bc_additional_dynamic_generator_config = None\<rparr> in
     and_then (emit (Model_generate call)) (\<lambda>_.
     and_then (lib (model_generate self call)) (\<lambda>output.
     and_then (get_audio self output) (\<lambda>audio.
     and_then (log_completed self) (\<lambda>_.
     ret (ModelOutput audio (audio_codec_sr self)))))))))"

definition InterfaceEXL2_generate ::
  "'s interface \<Rightarrow> ustring \<Rightarrow> speaker option \<Rightarrow> real \<Rightarrow> real \<Rightarrow> int option \<Rightarrow> gen_options
     \<Rightarrow> gen_options \<Rightarrow> ('s, 's model_output) eff" where
  "InterfaceEXL2_generate self text speaker temperature repetition_penalty max_length
       additional_gen_config additional_dynamic_generator_config =
     and_then (InterfaceEXL2_prepare_prompt self text speaker) (\<lambda>input_ids.
     and_then (log_input_tokens self (input_size input_ids)) (\<lambda>_.
     and_then (check_generation_max_length self max_length) (\<lambda>_.
     let call = \<lparr>bc_input_ids = input_ids,
                 bc_config = \<lparr>gc_temperature = temperature,
                              gc_repetition_penalty = repetition_penalty,
                              gc_max_length = max_length,
                              gc_additional_gen_config = additional_gen_config\<rparr>,
                 bc_additional_dynamic_generator_config =
                   Some additional_dynamic_generator_config\<rparr> in
     and_then (emit (Model_generate call)) (\<lambda>_.
     and_then (lib (model_generate self call)) (\<lambda>output.
     and_then (get_audio self output) (\<lambda>audio.
     and_then (log_completed self) (\<lambda>_.
     ret (ModelOutput audio (audio_codec_sr self)))))))))"

subsection \<open>The streaming chunk assembler\<close>

text \<open>
  \<open>_create_audio_chunk\<close>: decode the whole buffer, keep the samples from \<open>idx\<close> on, and
  return the full length with the chunk. \<open>audio.size()\<close> on \<open>None\<close> raises AttributeError.
\<close>

definition priv_create_audio_chunk ::
  "'s interface \<Rightarrow> token list \<Rightarrow> nat \<Rightarrow> ('s, 's model_output \<times> nat) eff" where
  "priv_create_audio_chunk self tokens idx =
     and_then (get_audio self tokens) (\<lambda>audio.
     case audio of
       None \<Rightarrow> raise AttributeError
     | Some a \<Rightarrow> ret (ModelOutput (Some (drop idx a)) (audio_codec_sr self), length a))"

text \<open>
  A generator is run to its end: what it produced, in order (the chunks it yielded and
  the events of its body), and how it ended: \<open>None\<close> for a normal end, \<open>Some e\<close> for the
  exception that left it. The consumer of the generator gets every item before the
  exception.
\<close>

datatype 's gen_item = Yield "'s model_output" | Event "'s event"

type_synonym 's generator = "'s gen_item list \<times> error option"

text \<open>
  The \<open>for token in self.model.generate(...)\<close> loop over the tokens the backend yields,
  with the loop variables \<open>audio_buffer\<close>, \<open>start_index\<close> and \<open>chunks\<close>. It returns the
  items produced and either the exception raised in the body or the variables after the
  last token.
\<close>

fun stream_loop ::
  "'s interface \<Rightarrow> token \<Rightarrow> int \<Rightarrow> bool \<Rightarrow> token list \<Rightarrow> token list \<Rightarrow> nat \<Rightarrow> int
     \<Rightarrow> 's gen_item list \<times> (error + token list \<times> nat \<times> int)" where
  "stream_loop self code_end_token chunk_size stream_segments [] audio_buffer start_index chunks =
     ([], Inr (audio_buffer, start_index, chunks))"
| "stream_loop self code_end_token chunk_size stream_segments (token # rest) audio_buffer
       start_index chunks =
     (let audio_buffer = audio_buffer @ [token] in
      if \<not> stream_segments then
        (let chunks = (if token = code_end_token then chunks + 1 else chunks) in
         if chunks = chunk_size then
           (case priv_create_audio_chunk self audio_buffer start_index of
              (Inl e, evs) \<Rightarrow> (map Event evs, Inl e)
            | (Inr (output, start_index), evs) \<Rightarrow>
                (case stream_loop self code_end_token chunk_size stream_segments rest
                        audio_buffer start_index 0 of
                   (items, r) \<Rightarrow> (map Event evs @ Yield output # items, r)))
         else stream_loop self code_end_token chunk_size stream_segments rest audio_buffer
                start_index chunks)
      else stream_loop self code_end_token chunk_size stream_segments rest audio_buffer
             start_index chunks)"

text \<open>
  The statements of \<open>_generate_stream\<close> between the \<open>chunk_size\<close> test and the loop:
  validate \<open>max_length\<close>, take the first token of the encoded \<open>code_end\<close> marker
  (IndexError when the encoding is empty), prepare the prompt.
\<close>

definition stream_setup ::
  "interface_class \<Rightarrow> 's interface \<Rightarrow> ustring \<Rightarrow> speaker option \<Rightarrow> int option
     \<Rightarrow> ('s, token \<times> backend_input) eff" where
  "stream_setup cls self text speaker max_length =
     and_then (check_generation_max_length self max_length) (\<lambda>_.
     and_then (lib (tokenizer_encode self (special_tokens_code_end self))) (\<lambda>encoded.
     and_then (case encoded of [] \<Rightarrow> raise IndexError | t # _ \<Rightarrow> ret t) (\<lambda>code_end_token.
     and_then (prepare_prompt cls self text speaker) (\<lambda>input_ids.
     ret (code_end_token, input_ids)))))"

text \<open>
  \<open>_generate_stream\<close>. \<open>additional_dynamic_generator_config\<close> is accepted and not used
  (the lines that would pass it on are commented out in the source).
\<close>

definition priv_generate_stream ::
  "interface_class \<Rightarrow> 's interface \<Rightarrow> ustring \<Rightarrow> speaker option \<Rightarrow> real \<Rightarrow> real \<Rightarrow> int option
     \<Rightarrow> gen_options \<Rightarrow> gen_options \<Rightarrow> int \<Rightarrow> bool \<Rightarrow> 's generator" where
  "priv_generate_stream cls self text speaker temperature repetition_penalty max_length
       additional_gen_config additional_dynamic_generator_config chunk_size stream_segments =
     (if chunk_size < 4 then ([], Some (ValueError Chunk_size_must_be_at_least_4))
      else
        (case stream_setup cls self text speaker max_length of
           (Inl e, evs) \<Rightarrow> (map Event evs, Some e)
         | (Inr (code_end_token, input_ids), evs) \<Rightarrow>
             (let gen_config =
                    \<lparr>bc_input_ids = input_ids,
                     bc_config = \<lparr>gc_temperature = temperature,
                                  gc_repetition_penalty = repetition_penalty,
                                  gc_max_length = max_length,
                                  gc_additional_gen_config = additional_gen_config\<rparr>,
                     bc_additional_dynamic_generator_config = None\<rparr>;
                  started = map Event evs @ [Event (Model_generate_stream gen_config)]
              in
                (case model_generate_stream self gen_config of
                   (tokens, failure) \<Rightarrow>
                     (case stream_loop self code_end_token chunk_size stream_segments tokens
                             [] 0 0 of
                        (items, Inl e) \<Rightarrow> (started @ items, Some e)
                      | (items, Inr (audio_buffer, start_index, chunks)) \<Rightarrow>
                          (case failure of
                             Some c \<Rightarrow> (started @ items, Some (lib_error c))
                           | None \<Rightarrow>
                               if audio_buffer \<noteq> [] then
                                 (case priv_create_audio_chunk self audio_buffer start_index of
                                    (Inl e, evs') \<Rightarrow>
                                      (started @ items @ map Event evs', Some e)
                                  | (Inr (output, start_index), evs') \<Rightarrow>
                                      (started @ items @ map Event evs' @ [Yield output], None))
                               else (started @ items, None)))))))"

subsection \<open>generate_stream, the producer of the playback queue\<close>

text \<open>
  The body of the \<open>try\<close>: for each segment a log line, then every chunk of the segment's
  generator is put on the queue as it is yielded. The result is the events in order and
  the exception that left the loop, if any.
\<close>

fun queue_item :: "'s gen_item \<Rightarrow> 's event" where
  "queue_item (Yield output) = Queue_put (Some output)"
| "queue_item (Event ev) = ev"

fun for_segments ::
  "interface_class \<Rightarrow> 's interface \<Rightarrow> speaker option \<Rightarrow> real \<Rightarrow> real \<Rightarrow> int option
     \<Rightarrow> gen_options \<Rightarrow> gen_options \<Rightarrow> int \<Rightarrow> bool \<Rightarrow> nat \<Rightarrow> nat \<Rightarrow> ustring list
     \<Rightarrow> 's event list \<times> error option" where
  "for_segments cls self speaker temperature repetition_penalty max_length
       additional_gen_config additional_dynamic_generator_config chunk_size stream_segments
       idx n [] = ([], None)"
| "for_segments cls self speaker temperature repetition_penalty max_length
       additional_gen_config additional_dynamic_generator_config chunk_size stream_segments
       idx n (segment # rest) =
     (case priv_generate_stream cls self segment speaker temperature repetition_penalty
             max_length additional_gen_config additional_dynamic_generator_config chunk_size
             stream_segments of
        (items, Some e) \<Rightarrow>
          (Logger_info (Processing_segment (idx + 1) n) # map queue_item items, Some e)
      | (items, None) \<Rightarrow>
          (case for_segments cls self speaker temperature repetition_penalty max_length
                  additional_gen_config additional_dynamic_generator_config chunk_size
                  stream_segments (idx + 1) n rest of
             (evs, status) \<Rightarrow>
               (Logger_info (Processing_segment (idx + 1) n) # map queue_item items @ evs,
                status)))"

text \<open>
  \<open>generate_stream\<close>, as the calling thread runs it. The second log line divides by
  \<open>len(segments)\<close> while its message is built. \<open>except Exception\<close> logs an exception
  that is an instance of \<open>Exception\<close> and goes on; any other exception leaves
  \<open>generate_stream\<close> there, since the sentinel and the join are not in a \<open>finally\<close>.
\<close>

definition generate_stream ::
  "interface_class \<Rightarrow> 's interface \<Rightarrow> ustring \<Rightarrow> speaker option \<Rightarrow> real \<Rightarrow> real \<Rightarrow> int option
     \<Rightarrow> gen_options \<Rightarrow> gen_options \<Rightarrow> int \<Rightarrow> bool \<Rightarrow> ('s, unit) eff" where
  "generate_stream cls self text speaker temperature repetition_penalty max_length
       additional_gen_config additional_dynamic_generator_config chunk_size stream_segments =
     and_then (emit Queue_created) (\<lambda>_.
     and_then (emit Thread_started) (\<lambda>_.
     and_then (emit (Logger_info (Processing_text (length text)))) (\<lambda>_.
     let segments = split_text text None in
     and_then (if length segments = 0 then raise ZeroDivisionError
               else emit (Logger_info (Split_text_into (length segments)
                                         (sum_list (map length segments))))) (\<lambda>_.
     and_then (if stream_segments then emit (Logger_info Stream_segments_is_True)
               else ret ()) (\<lambda>_.
     and_then (case for_segments cls self speaker temperature repetition_penalty max_length
                      additional_gen_config additional_dynamic_generator_config chunk_size
                      stream_segments 0 (length segments) segments of
                 (evs, None) \<Rightarrow> (Inr (), evs)
               | (evs, Some e) \<Rightarrow>
                   if is_Exception e then (Inr (), evs @ [Logger_error e])
                   else (Inl e, evs)) (\<lambda>_.
     and_then (emit (Queue_put None)) (\<lambda>_.
     and_then (emit Thread_joined) (\<lambda>_.
     emit Queue_deleted))))))))"

text \<open>
  \<open>_audio_player\<close>, the target of the playback thread, on the items its calls of
  \<open>self.audio_queue.get()\<close> return one after the other. \<open>queue.Queue\<close> is first in, first
  out and \<open>get\<close> blocks while the queue is empty, so these items are the items put on the
  queue, in the order of the puts. The result is the chunks on which \<open>play\<close> was called, in
  order, and how the loop ended: \<open>Stopped\<close> at the \<open>break\<close>, \<open>Blocked\<close> in a \<open>get\<close> that
  never returns since nothing more is put. \<open>play\<close> itself (outetts/version/playback.py) is
  not run; \<open>_audio_player\<close> puts nothing on the queue.
\<close>

datatype player_end = Stopped | Blocked

fun priv_audio_player :: "'s model_output option list \<Rightarrow> 's model_output list \<times> player_end" where
  "priv_audio_player [] = ([], Blocked)"
| "priv_audio_player (None # items) = ([], Stopped)"
| "priv_audio_player (Some chunk # items) =
     (case priv_audio_player items of (played, ending) \<Rightarrow> (chunk # played, ending))"

subsection \<open>create_speaker\<close>

text \<open>
  A list slice \<open>xs[start:stop]\<close> with integer bounds: a negative bound counts from the
  end, every bound is clipped to the list, and the slice is empty when the bounds cross.
\<close>

definition py_slice :: "'a list \<Rightarrow> int \<Rightarrow> int \<Rightarrow> 'a list" where
  "py_slice xs start stop =
     (let n = int (length xs);
          lo = (if start < 0 then max (start + n) 0 else min start n);
          hi = (if stop < 0 then max (stop + n) 0 else min stop n)
      in take (nat (hi - lo)) (drop (nat lo) xs))"

text \<open>
  \<open>round(x, 2)\<close>: the decimal with two places nearest to \<open>x\<close>. It is applied to
  \<open>n / 75\<close> only, and \<open>100 * n / 75\<close> is never halfway between two integers, so the
  direction in which a tie would be broken plays no role.
\<close>

definition py_round_2 :: "real \<Rightarrow> real" where
  "py_round_2 x = real_of_int (round (x * 100)) / 100"

text \<open>
  The loop over the aligned words, with the loop variable \<open>start\<close>. \<open>full_codes[0][0]\<close>
  raises IndexError when an index is out of range.
\<close>

fun words_loop ::
  "'s interface \<Rightarrow> token list list list \<Rightarrow> int \<Rightarrow> 's aligned_word list
     \<Rightarrow> error + word_entry list" where
  "words_loop self full_codes start [] = Inr []"
| "words_loop self full_codes start (i # rest) =
     (let end_frame = frame_index self (aw_x1 i) (ctc_sample_rate self) in
      case full_codes of
        [] \<Rightarrow> Inl IndexError
      | codes0 # _ \<Rightarrow>
          (case codes0 of
             [] \<Rightarrow> Inl IndexError
           | codes00 # _ \<Rightarrow>
               (let word_tokens = py_slice codes00 start end_frame;
                    word_tokens = (if word_tokens = [] then [1] else word_tokens)
                in case words_loop self full_codes end_frame rest of
                     Inl e \<Rightarrow> Inl e
                   | Inr data \<Rightarrow>
                       Inr (\<lparr>entry_word = aw_word i,
                             entry_duration = py_round_2 (real (length word_tokens) / 75),
                             entry_codes = word_tokens\<rparr> # data))))"

definition create_speaker ::
  "'s interface \<Rightarrow> ustring \<Rightarrow> ustring option \<Rightarrow> ustring \<Rightarrow> ustring option
     \<Rightarrow> ('s, speaker) eff" where
  "create_speaker self audio_path transcript whisper_model whisper_device =
     and_then
       (case transcript of
          None \<Rightarrow>
            and_then (emit (Logger_info Transcription_not_provided)) (\<lambda>_.
            and_then (emit (Whisper_transcribe audio_path)) (\<lambda>_.
            lib (transcribe_once self audio_path whisper_model whisper_device)))
        | Some t \<Rightarrow> ret t) (\<lambda>transcript.
     if transcript = [] then raise (ValueError Transcript_text_is_empty)
     else
       and_then (emit (Ctc_align audio_path transcript (language self))) (\<lambda>_.
       and_then (lib (ctc_align self audio_path transcript (language self))) (\<lambda>words.
       and_then (emit Ctc_free) (\<lambda>_.
       and_then (emit Codec_encode) (\<lambda>_.
       and_then (lib (audio_codec_encode self (map aw_audio words) (ctc_sample_rate self)))
         (\<lambda>full_codes.
       and_then (words_loop self full_codes 0 words, []) (\<lambda>data.
       ret \<lparr>speaker_text = transcript,
            speaker_words = data,
            speaker_language = language self\<rparr>)))))))"

subsection \<open>Notions used to state the properties\<close>

text \<open>The events that are a generation by the backend model.\<close>

fun backend_generation :: "'s event \<Rightarrow> bool" where
  "backend_generation (Model_generate call) = True"
| "backend_generation (Model_generate_stream call) = True"
| "backend_generation ev = False"

text \<open>The events that are a forced alignment or an audio encoding.\<close>

fun alignment_or_encoding :: "'s event \<Rightarrow> bool" where
  "alignment_or_encoding (Ctc_align audio_path transcript lang) = True"
| "alignment_or_encoding Codec_encode = True"
| "alignment_or_encoding ev = False"

text \<open>The chunks a generator yielded, in order.\<close>

fun yielded :: "'s gen_item list \<Rightarrow> 's model_output list" where
  "yielded [] = []"
| "yielded (Yield output # items) = output # yielded items"
| "yielded (Event ev # items) = yielded items"

text \<open>
  A token buffer at which the chunk assembler owes a chunk: it ends with the \<open>code_end\<close>
  token and holds a multiple of \<open>chunk_size\<close> such tokens, so that \<open>chunk_size\<close> of
  them have come since the chunk before.
\<close>

definition chunk_due :: "int \<Rightarrow> token \<Rightarrow> token list \<Rightarrow> bool" where
  "chunk_due chunk_size code_end_token b \<longleftrightarrow>
     b \<noteq> [] \<and> last b = code_end_token \<and> chunk_size dvd int (count_list b code_end_token)"

text \<open>
  The buffers for which a chunk is owed, in order: every prefix of the generated tokens
  at which one is due, and at the end the buffer that remains, which holds all the
  tokens since the buffer is never emptied.
\<close>

definition chunk_buffers :: "int \<Rightarrow> token \<Rightarrow> token list \<Rightarrow> token list list" where
  "chunk_buffers chunk_size code_end_token tokens =
     filter (chunk_due chunk_size code_end_token) (prefixes tokens)
     @ (if tokens = [] then [] else [tokens])"

text \<open>
  The chunks owed for a list of buffers: the audio decoded from each buffer without its
  first \<open>start_index\<close> samples, where \<open>start_index\<close> is the full length of the audio
  decoded for the buffer before (0 for the first). The list is cut at the first buffer
  that does not decode to audio (no audio token in it, or an exception of the extraction or
  of the codec): \<open>_generate_stream\<close> ends with an exception there, and the chunks owed
  from that buffer on are not yielded.
\<close>

fun expected_chunks :: "'s interface \<Rightarrow> nat \<Rightarrow> token list list \<Rightarrow> 's model_output list" where
  "expected_chunks self start_index [] = []"
| "expected_chunks self start_index (b # bs) =
     (case fst (get_audio self b) of
        Inr (Some a) \<Rightarrow>
          ModelOutput (Some (drop start_index a)) (audio_codec_sr self)
            # expected_chunks self (length a) bs
      | _ \<Rightarrow> [])"

text \<open>
  The length of the audio decoded from a buffer (0 when it does not decode to audio), and
  the \<open>start_index\<close> after the chunks of a list of buffers.
\<close>

definition decoded_length :: "'s interface \<Rightarrow> token list \<Rightarrow> nat" where
  "decoded_length self b =
     (case fst (get_audio self b) of Inr (Some a) \<Rightarrow> length a | _ \<Rightarrow> 0)"

definition start_index_after :: "'s interface \<Rightarrow> nat \<Rightarrow> token list list \<Rightarrow> nat" where
  "start_index_after self start_index bs =
     (if bs = [] then start_index else decoded_length self (last bs))"

text \<open>The items put on the queue in a run, in order.\<close>

fun puts :: "'s event list \<Rightarrow> 's model_output option list" where
  "puts [] = []"
| "puts (Queue_put item # evs) = item # puts evs"
| "puts (ev # evs) = puts evs"

text \<open>
  The events of the loop over the segments: every event but the creation and the deletion
  of the queue, the start and the join of the thread, and the put of the sentinel.
\<close>

fun body_event :: "'s event \<Rightarrow> bool" where
  "body_event (Queue_put None) = False"
| "body_event Queue_created = False"
| "body_event Thread_started = False"
| "body_event Thread_joined = False"
| "body_event Queue_deleted = False"
| "body_event ev = True"

subsection \<open>A small instance\<close>

text \<open>
  An interface on which the definitions can be run: the prompt is the text, a character
  is its own token, token 0 is the \<open>code_end\<close> marker, the positive tokens are audio
  tokens, every audio token decodes to one sample, and the streaming backend yields
  eleven tokens with five \<open>code_end\<close> markers. The aligner returns two words that
  end in the same frame of the codec (samples 4 and 5 at 150 samples per second, 75 frames
  per second).
\<close>

definition demo_interface :: "nat interface" where
  "demo_interface =
     \<lparr>max_seq_length = 4096,
      languages = [[101, 110]],
      language = [101, 110],
      verbose = True,
      audio_codec_sr = 24000,
      get_completion_prompt = (\<lambda>text lang speaker. Inr text),
      tokenizer_encode = (\<lambda>s. Inr (map int s)),
      special_tokens_code_end = [0],
      extract_audio_from_tokens = (\<lambda>tokens. Inr (filter (\<lambda>t. 0 < t) tokens)),
      audio_codec_decode = (\<lambda>codes. Inr (map nat codes)),
      model_generate = (\<lambda>call. Inr [104, 105, 5, 0, 6]),
      model_generate_stream = (\<lambda>call. ([5, 0, 6, 0, 7, 0, 8, 0, 9, 0, 3], None)),
      transcribe_once = (\<lambda>audio_path model device. Inr []),
      ctc_align = (\<lambda>audio_path transcript lang.
        Inr [\<lparr>aw_word = [104, 105], aw_x1 = 4, aw_audio = [4, 2]\<rparr>,
             \<lparr>aw_word = [121, 111], aw_x1 = 5, aw_audio = [3]\<rparr>]),
      ctc_sample_rate = 150,
      audio_codec_encode = (\<lambda>audios sample_rate. Inr [[[7, 8, 9]]]),
      frame_index = (\<lambda>x1 sample_rate. \<lfloor>x1 * 75 / real sample_rate\<rfloor>)\<rparr>"

text \<open>
  The same interface with a backend that streams four \<open>code_end\<close> markers before the
  first audio token, and with a backend that is interrupted from the keyboard after two
  tokens.
\<close>

definition silent_interface :: "nat interface" where
  "silent_interface =
     demo_interface\<lparr>model_generate_stream := (\<lambda>call. ([0, 0, 0, 0, 5, 0], None))\<rparr>"


section \<open>Properties\<close>

subsection \<open>The text splitter\<close>

lemma occur_in_order_Cons_iff:
  "occur_in_order (r # rs) t \<longleftrightarrow> (\<exists>pre post. t = pre @ r @ post \<and> occur_in_order rs post)"
proof
  assume "occur_in_order (r # rs) t"
  then obtain i where i: "take (length r) (drop i t) = r"
    and rest: "occur_in_order rs (drop (i + length r) t)"
    unfolding occur_in_order.simps list_ex_iff by blast
  have "t = take i t @ drop i t" by simp
  also have "drop i t = take (length r) (drop i t) @ drop (length r) (drop i t)"
    by (rule append_take_drop_id [symmetric])
  finally have "t = take i t @ r @ drop (i + length r) t"
    using i by (simp add: add.commute)
  with rest show "\<exists>pre post. t = pre @ r @ post \<and> occur_in_order rs post" by blast
next
  assume "\<exists>pre post. t = pre @ r @ post \<and> occur_in_order rs post"
  then obtain pre post where t: "t = pre @ r @ post" and rest: "occur_in_order rs post"
    by blast
  have "length pre \<in> set [0..<Suc (length t)]" using t by simp
  moreover have "take (length r) (drop (length pre) t) = r" using t by simp
  moreover have "occur_in_order rs (drop (length pre + length r) t)" using t rest by simp
  ultimately show "occur_in_order (r # rs) t"
    unfolding occur_in_order.simps list_ex_iff by blast
qed

declare occur_in_order.simps(2) [simp del]

declare re_split_from.simps [simp del]

lemma occur_in_order_append_left: "occur_in_order rs t \<Longrightarrow> occur_in_order rs (p @ t)"
proof (cases rs)
  case Nil
  then show ?thesis by simp
next
  case (Cons r rs')
  assume "occur_in_order rs t"
  with Cons obtain pre post where "t = pre @ r @ post" "occur_in_order rs' post"
    by (auto simp: occur_in_order_Cons_iff)
  then have "p @ t = (p @ pre) @ r @ post \<and> occur_in_order rs' post" by simp
  then show ?thesis unfolding Cons occur_in_order_Cons_iff by blast
qed

lemma occur_in_order_filter: "occur_in_order rs t \<Longrightarrow> occur_in_order (filter P rs) t"
proof (induction rs arbitrary: t)
  case Nil
  then show ?case by simp
next
  case (Cons r rs)
  from Cons.prems obtain pre post where t: "t = pre @ r @ post" and rest: "occur_in_order rs post"
    by (auto simp: occur_in_order_Cons_iff)
  from Cons.IH [OF rest] have f: "occur_in_order (filter P rs) post" .
  show ?case
  proof (cases "P r")
    case True
    with t f show ?thesis by (auto simp: occur_in_order_Cons_iff)
  next
    case False
    from f have "occur_in_order (filter P rs) ((pre @ r) @ post)"
      by (rule occur_in_order_append_left)
    with False t show ?thesis by simp
  qed
qed

lemma occur_in_order_map_sub:
  assumes "\<And>r. \<exists>a b. r = a @ f r @ b"
  shows "occur_in_order rs t \<Longrightarrow> occur_in_order (map f rs) t"
proof (induction rs arbitrary: t)
  case Nil
  then show ?case by simp
next
  case (Cons r rs)
  from Cons.prems obtain pre post where t: "t = pre @ r @ post" and rest: "occur_in_order rs post"
    by (auto simp: occur_in_order_Cons_iff)
  from assms obtain a b where r: "r = a @ f r @ b" by blast
  from Cons.IH [OF rest] have "occur_in_order (map f rs) post" .
  then have "occur_in_order (map f rs) (b @ post)" by (rule occur_in_order_append_left)
  moreover have "t = (pre @ a) @ f r @ (b @ post)" using t r by (metis append_assoc)
  ultimately show ?case unfolding list.map occur_in_order_Cons_iff by blast
qed

lemma strip_sub: "\<exists>a b. s = a @ strip s @ b"
proof -
  let ?t = "dropWhile is_space s"
  have "?t = rev (takeWhile is_space (rev ?t) @ dropWhile is_space (rev ?t))"
    by (simp only: takeWhile_dropWhile_id rev_rev_ident)
  then have "?t = strip s @ rev (takeWhile is_space (rev ?t))"
    unfolding strip_def by (simp only: rev_append)
  moreover have "s = takeWhile is_space s @ ?t" by simp
  ultimately have "s = takeWhile is_space s @ strip s @ rev (takeWhile is_space (rev ?t))"
    by simp
  then show ?thesis by blast
qed

lemma strip_idem: "strip (strip s) = strip s"
proof -
  let ?t = "dropWhile is_space s"
  let ?u = "strip s"
  have ru: "rev ?u = dropWhile is_space (rev ?t)" by (simp add: strip_def)
  have t: "?t = ?u @ rev (takeWhile is_space (rev ?t))"
  proof -
    have "?t = rev (takeWhile is_space (rev ?t) @ dropWhile is_space (rev ?t))"
      by (simp only: takeWhile_dropWhile_id rev_rev_ident)
    then show ?thesis unfolding strip_def by (simp only: rev_append)
  qed
  have front: "dropWhile is_space ?u = ?u"
  proof (cases ?u)
    case Nil
    then show ?thesis by simp
  next
    case (Cons x xs)
    with t have "hd ?t = x" "?t \<noteq> []" by (metis append_Cons list.sel(1), metis append_Cons list.distinct(1))
    then have "\<not> is_space x" using hd_dropWhile [of is_space s] by simp
    with Cons show ?thesis by simp
  qed
  have "dropWhile is_space (rev ?u) = rev ?u"
    unfolding ru by (rule dropWhile_idem)
  then have "rev (dropWhile is_space (rev ?u)) = ?u" by simp
  with front show ?thesis by (simp add: strip_def)
qed

lemma re_split_from_Some:
  "match_alt adv alts s = Some d \<Longrightarrow>
   re_split_from alts adv piece s = piece # re_split_from alts (d = []) [] (drop (length d) s)"
  by (subst re_split_from.simps) simp

lemma re_split_from_Nil:
  "match_alt adv alts [] = None \<Longrightarrow> re_split_from alts adv piece [] = [piece]"
  by (subst re_split_from.simps) simp

lemma re_split_from_Cons:
  "match_alt adv alts (c # cs) = None \<Longrightarrow>
   re_split_from alts adv piece (c # cs) = re_split_from alts False (piece @ [c]) cs"
  by (subst re_split_from.simps) simp

lemma match_alt_None:
  "match_alt adv alts s = None \<Longrightarrow> d \<in> set alts \<Longrightarrow> d \<noteq> [] \<Longrightarrow> take (length d) s \<noteq> d"
  by (induction alts) (auto split: if_splits)

lemma re_split_from_chars:
  "\<forall>c \<in> D. [c] \<in> set alts \<Longrightarrow> p \<in> set (re_split_from alts adv piece s) \<Longrightarrow>
   set p \<inter> D \<subseteq> set piece"
proof (induction alts adv piece s arbitrary: p rule: re_split_from.induct)
  case (1 alts adv piece s)
  note D = "1.prems"(1)
  show ?case
  proof (cases "match_alt adv alts s")
    case (Some d)
    with "1.prems" have "p = piece \<or> p \<in> set (re_split_from alts (d = []) [] (drop (length d) s))"
      by (simp add: re_split_from_Some re_split_from_Nil re_split_from_Cons)
    then show ?thesis
    proof
      assume "p = piece"
      then show ?thesis by simp
    next
      assume "p \<in> set (re_split_from alts (d = []) [] (drop (length d) s))"
      from "1.IH"(2) [OF Some D this] show ?thesis by simp
    qed
  next
    case None
    show ?thesis
    proof (cases s)
      case Nil
      with None "1.prems" show ?thesis
        by (simp add: re_split_from_Some re_split_from_Nil re_split_from_Cons)
    next
      case (Cons c cs)
      with None "1.prems" have "p \<in> set (re_split_from alts False (piece @ [c]) cs)"
        by (simp add: re_split_from_Some re_split_from_Nil re_split_from_Cons)
      from "1.IH"(1) [OF None Cons D this] have sub: "set p \<inter> D \<subseteq> set (piece @ [c])" by simp
      have "c \<notin> D"
      proof
        assume "c \<in> D"
        with D have "[c] \<in> set alts" by blast
        from match_alt_None [OF None this] Cons show False by simp
      qed
      with sub show ?thesis by auto
    qed
  qed
qed

lemma re_split_from_shape:
  "\<exists>x rest y. re_split_from alts adv piece s = (piece @ x) # rest \<and> s = x @ y \<and> occur_in_order rest y"
proof (induction alts adv piece s rule: re_split_from.induct)
  case (1 alts adv piece s)
  show ?case
  proof (cases "match_alt adv alts s")
    case (Some d)
    from "1.IH"(2) [OF Some] obtain x rest y
      where r: "re_split_from alts (d = []) [] (drop (length d) s) = x # rest"
        and s: "drop (length d) s = x @ y" and o: "occur_in_order rest y"
      by auto
    have "s = take (length d) s @ x @ y" using s by (metis append_take_drop_id)
    with o have "occur_in_order (x # rest) s" unfolding occur_in_order_Cons_iff by blast
    moreover have "re_split_from alts adv piece s = (piece @ []) # x # rest"
      using Some r by (simp add: re_split_from_Some re_split_from_Nil re_split_from_Cons)
    ultimately show ?thesis by (metis append_Nil)
  next
    case None
    show ?thesis
    proof (cases s)
      case Nil
      with None have "re_split_from alts adv piece s = (piece @ []) # []"
        by (simp add: re_split_from_Some re_split_from_Nil re_split_from_Cons)
      moreover have "s = [] @ []" using Nil by simp
      ultimately show ?thesis using occur_in_order.simps(1) by blast
    next
      case (Cons c cs)
      from "1.IH"(1) [OF None Cons] obtain x rest y
        where r: "re_split_from alts False (piece @ [c]) cs = ((piece @ [c]) @ x) # rest"
          and s: "cs = x @ y" and o: "occur_in_order rest y"
        by auto
      have "re_split_from alts adv piece s = (piece @ (c # x)) # rest"
        using None Cons r by (simp add: re_split_from_Some re_split_from_Nil re_split_from_Cons)
      moreover have "s = (c # x) @ y" using Cons s by simp
      ultimately show ?thesis using o by blast
    qed
  qed
qed

lemma re_split_in_order: "occur_in_order (re_split ds text) text"
proof -
  obtain x rest y where "re_split ds text = ([] @ x) # rest" "text = x @ y" "occur_in_order rest y"
    unfolding re_split_def using re_split_from_shape by blast
  then have r: "re_split ds text = x # rest" and t: "text = [] @ x @ y"
    and o: "occur_in_order rest y" by simp_all
  from t o have "occur_in_order (x # rest) text" unfolding occur_in_order_Cons_iff by blast
  with r show ?thesis by simp
qed

text \<open>
  C8. For every input text, every string returned by \<open>split_text\<close> with the default
  delimiters is non-empty, equals its own strip, contains none of the delimiter
  characters, and the returned strings occur in the input text in the order in which
  they are returned.
\<close>

theorem split_text_pieces:
  "(\<forall>s \<in> set (split_text text None).
      s \<noteq> [] \<and> strip s = s \<and> set s \<inter> set (concat default_delimiters) = {})
   \<and> occur_in_order (split_text text None) text"
proof (intro conjI ballI)
  fix s assume s: "s \<in> set (split_text text None)"
  then obtain p where p: "p \<in> set (re_split default_delimiters text)" and sp: "s = strip p"
    and ne: "s \<noteq> []"
    by (auto simp: split_text_def)
  show "s \<noteq> []" by (rule ne)
  show "strip s = s" unfolding sp by (rule strip_idem)
  have "\<forall>c \<in> set (concat default_delimiters). [c] \<in> set default_delimiters"
    by (simp add: default_delimiters_def)
  from re_split_from_chars [of "set (concat default_delimiters)" default_delimiters, OF this]
  have "\<And>q. q \<in> set (re_split_from default_delimiters False [] text) \<Longrightarrow>
    set q \<inter> set (concat default_delimiters) \<subseteq> set []" .
  moreover have "default_delimiters \<noteq> []" by (simp add: default_delimiters_def)
  ultimately have "set p \<inter> set (concat default_delimiters) \<subseteq> set []"
    using p unfolding re_split_def by (simp only: if_False)
  moreover obtain a b where "p = a @ strip p @ b" using strip_sub by blast
  then have "set s \<subseteq> set p" unfolding sp by (metis Un_upper1 Un_upper2 set_append subset_trans)
  ultimately show "set s \<inter> set (concat default_delimiters) = {}" by auto
next
  have "occur_in_order (map strip (re_split default_delimiters text)) text"
    by (rule occur_in_order_map_sub [OF strip_sub re_split_in_order])
  then show "occur_in_order (split_text text None) text"
    unfolding split_text_def by (simp add: occur_in_order_filter)
qed

theorem split_text_pieces_witness:
  "split_text [72, 105, 46, 32, 13, 10, 32, 89, 111, 33] None = [[72, 105], [89, 111]]
   \<and> list_all (\<lambda>s. s \<noteq> [] \<and> strip s = s \<and> set s \<inter> set (concat default_delimiters) = {})
        (split_text [72, 105, 46, 32, 13, 10, 32, 89, 111, 33] None)
   \<and> occur_in_order (split_text [72, 105, 46, 32, 13, 10, 32, 89, 111, 33] None)
        [72, 105, 46, 32, 13, 10, 32, 89, 111, 33]"
proof -
  have "split_text [72, 105, 46, 32, 13, 10, 32, 89, 111, 33] None = [[72, 105], [89, 111]]"
    by (simp add: split_text_def re_split_def default_delimiters_def strip_def is_space_def
        re_split_from.simps)
  with split_text_pieces [of "[72, 105, 46, 32, 13, 10, 32, 89, 111, 33]"] show ?thesis
    unfolding list_all_iff by blast
qed

subsection \<open>Sequencing of effects\<close>

lemma and_then_ret [simp]: "and_then (ret x) f = f x"
  by (simp add: and_then_def ret_def split: prod.splits)

lemma and_then_raise [simp]: "and_then (raise e) f = raise e"
  by (simp add: and_then_def raise_def)

lemma and_then_Inl [simp]: "and_then (Inl e, evs) f = (Inl e, evs)"
  by (simp add: and_then_def)

lemma after_pair [simp]: "after evs (r, evs') = (r, evs @ evs')"
  by (simp add: after_def)

lemma after_after [simp]: "after evs (after evs' m) = after (evs @ evs') m"
  by (simp add: after_def)

lemma after_Nil [simp]: "after [] m = m"
  by (simp add: after_def)

lemma after_ret [simp]: "after evs (ret x) = (Inr x, evs)"
  by (simp add: after_def ret_def)

lemma after_raise [simp]: "after evs (raise e) = (Inl e, evs)"
  by (simp add: after_def raise_def)

lemma after_emit [simp]: "after evs (emit ev) = (Inr (), evs @ [ev])"
  by (simp add: after_def emit_def)

lemma and_then_emit: "and_then (emit ev) f = after [ev] (f ())"
  by (simp add: and_then_def emit_def after_def split: prod.splits)

lemma and_then_Inr: "and_then (Inr x, evs) f = after evs (f x)"
  by (simp add: and_then_def after_def split: prod.splits)

lemma eff_cases:
  obtains (Raise) e evs where "m = (Inl e, evs)" | (Return) x evs where "m = (Inr x, evs)"
  by (cases m; cases "fst m") auto

lemma and_then_after [simp]: "and_then (after evs m) f = after evs (and_then m f)"
  by (cases m rule: eff_cases) (simp_all add: and_then_Inr)

lemma and_then_assoc: "and_then (and_then m f) g = and_then m (\<lambda>x. and_then (f x) g)"
  by (cases m rule: eff_cases) (simp_all add: and_then_Inr)

lemma lib_error_not_ValueError [simp]: "lib_error c \<noteq> ValueError m"
  by (cases c) simp_all

lemma lib_error_not_IndexError [simp]: "lib_error c \<noteq> IndexError"
  by (cases c) simp_all

lemma lib_cases:
  obtains (Fails) c where "lib r = (Inl (lib_error c), [])" | (Gives) x where "lib r = (Inr x, [])"
  by (cases r) (simp_all add: lib_def)

subsection \<open>Validation of \<open>max_length\<close>\<close>

lemma check_invalid:
  "max_length = None \<or> (\<exists>n. max_length = Some n \<and> n > max_seq_length self) \<Longrightarrow>
   \<exists>m. check_generation_max_length self max_length = (Inl (ValueError m), [])"
  by (auto simp: check_generation_max_length_def raise_def)

lemma check_valid:
  "max_length = Some n \<Longrightarrow> n \<le> max_seq_length self \<Longrightarrow>
   check_generation_max_length self max_length = (Inr (), [])"
  by (auto simp: check_generation_max_length_def ret_def)

lemma prepare_prompt_events:
  "snd (InterfaceHF_prepare_prompt self text speaker) = []"
  "snd (InterfaceGGUF_prepare_prompt self text speaker) = []"
  "snd (InterfaceEXL2_prepare_prompt self text speaker) = []"
  by (auto simp: InterfaceHF_prepare_prompt_def InterfaceGGUF_prepare_prompt_def
      InterfaceEXL2_prepare_prompt_def lib_def and_then_def ret_def split: sum.splits)

lemma log_input_tokens_cases:
  "\<exists>evs. log_input_tokens self n = (Inr (), evs) \<and> \<not> list_ex backend_generation evs"
  by (simp add: log_input_tokens_def and_then_emit ret_def)

text \<open>
  The common beginning of the three \<open>generate\<close> methods: when the validation raises,
  the run ends there, whatever would follow.
\<close>

lemma stopped_before_backend:
  assumes "snd prep = []" and "check = (Inl e, [])"
  shows "isl (fst (and_then prep (\<lambda>input_ids.
           and_then (log_input_tokens self (size_of input_ids))
             (\<lambda>_. and_then check (rest input_ids)))))
     \<and> \<not> list_ex backend_generation (snd (and_then prep (\<lambda>input_ids.
           and_then (log_input_tokens self (size_of input_ids))
             (\<lambda>_. and_then check (rest input_ids)))))"
proof (cases prep rule: eff_cases)
  case (Raise e' evs)
  with assms(1) show ?thesis by simp
next
  case (Return x evs)
  obtain evs' where l: "log_input_tokens self (size_of x) = (Inr (), evs')"
    and n: "\<not> list_ex backend_generation evs'"
    using log_input_tokens_cases by blast
  from Return assms l n show ?thesis by (simp add: and_then_Inr)
qed

lemma generate_invalid:
  assumes "max_length = None \<or> (\<exists>n. max_length = Some n \<and> n > max_seq_length self)"
  shows "isl (fst (InterfaceHF_generate self text speaker temperature repetition_penalty
                     max_length additional_gen_config))
       \<and> \<not> list_ex backend_generation (snd (InterfaceHF_generate self text speaker temperature
                     repetition_penalty max_length additional_gen_config))"
    and "isl (fst (InterfaceGGUF_generate self text speaker temperature repetition_penalty
                     max_length additional_gen_config))
       \<and> \<not> list_ex backend_generation (snd (InterfaceGGUF_generate self text speaker temperature
                     repetition_penalty max_length additional_gen_config))"
    and "isl (fst (InterfaceEXL2_generate self text speaker temperature repetition_penalty
                     max_length additional_gen_config additional_dynamic_generator_config))
       \<and> \<not> list_ex backend_generation (snd (InterfaceEXL2_generate self text speaker temperature
                     repetition_penalty max_length additional_gen_config
                     additional_dynamic_generator_config))"
proof -
  from check_invalid [OF assms] obtain m
    where c: "check_generation_max_length self max_length = (Inl (ValueError m), [])" by blast
  note s = stopped_before_backend [OF _ c]
  show "isl (fst (InterfaceHF_generate self text speaker temperature repetition_penalty
                     max_length additional_gen_config))
       \<and> \<not> list_ex backend_generation (snd (InterfaceHF_generate self text speaker temperature
                     repetition_penalty max_length additional_gen_config))"
    unfolding InterfaceHF_generate_def by (rule s [OF prepare_prompt_events(1)])
  show "isl (fst (InterfaceGGUF_generate self text speaker temperature repetition_penalty
                     max_length additional_gen_config))
       \<and> \<not> list_ex backend_generation (snd (InterfaceGGUF_generate self text speaker temperature
                     repetition_penalty max_length additional_gen_config))"
    unfolding InterfaceGGUF_generate_def by (rule s [OF prepare_prompt_events(2)])
  show "isl (fst (InterfaceEXL2_generate self text speaker temperature repetition_penalty
                     max_length additional_gen_config additional_dynamic_generator_config))
       \<and> \<not> list_ex backend_generation (snd (InterfaceEXL2_generate self text speaker temperature
                     repetition_penalty max_length additional_gen_config
                     additional_dynamic_generator_config))"
    unfolding InterfaceEXL2_generate_def by (rule s [OF prepare_prompt_events(3)])
qed




subsection \<open>The producer of the playback queue\<close>

lemma priv_generate_stream_small_chunk:
  "chunk_size < 4 \<Longrightarrow>
   priv_generate_stream cls self text speaker temperature repetition_penalty max_length
     additional_gen_config additional_dynamic_generator_config chunk_size stream_segments
   = ([], Some (ValueError Chunk_size_must_be_at_least_4))"
  by (simp add: priv_generate_stream_def)

lemma priv_generate_stream_invalid:
  assumes "4 \<le> chunk_size"
    and "max_length = None \<or> (\<exists>n. max_length = Some n \<and> n > max_seq_length self)"
  shows "\<exists>m. priv_generate_stream cls self text speaker temperature repetition_penalty max_length
     additional_gen_config additional_dynamic_generator_config chunk_size stream_segments
   = ([], Some (ValueError m))"
proof -
  from check_invalid [OF assms(2)] obtain m
    where "check_generation_max_length self max_length = (Inl (ValueError m), [])" by blast
  then have "stream_setup cls self text speaker max_length = (Inl (ValueError m), [])"
    by (simp add: stream_setup_def)
  with assms(1) show ?thesis by (simp add: priv_generate_stream_def)
qed

lemma for_segments_fails_first:
  assumes "priv_generate_stream cls self segment speaker temperature repetition_penalty max_length
     additional_gen_config additional_dynamic_generator_config chunk_size stream_segments
   = ([], Some e)"
  shows "for_segments cls self speaker temperature repetition_penalty max_length
     additional_gen_config additional_dynamic_generator_config chunk_size stream_segments
     idx n (segment # rest) = ([Logger_info (Processing_segment (idx + 1) n)], Some e)"
  using assms by simp

declare for_segments.simps [simp del]

lemma generate_stream_no_segments:
  assumes "split_text text None = []"
  shows "generate_stream cls self text speaker temperature repetition_penalty max_length
           additional_gen_config additional_dynamic_generator_config chunk_size stream_segments
         = (Inl ZeroDivisionError,
            [Queue_created, Thread_started, Logger_info (Processing_text (length text))])"
  using assms by (simp add: generate_stream_def and_then_emit)

lemma generate_stream_segments:
  assumes "split_text text None \<noteq> []"
    and "for_segments cls self speaker temperature repetition_penalty max_length
        additional_gen_config additional_dynamic_generator_config chunk_size stream_segments
        0 (length (split_text text None)) (split_text text None) = (evs, status)"
    and "case status of None \<Rightarrow> True | Some e \<Rightarrow> is_Exception e"
  shows "generate_stream cls self text speaker temperature repetition_penalty max_length
        additional_gen_config additional_dynamic_generator_config chunk_size stream_segments
      = (Inr (),
         [Queue_created, Thread_started, Logger_info (Processing_text (length text)),
          Logger_info (Split_text_into (length (split_text text None))
                         (sum_list (map length (split_text text None))))]
         @ (if stream_segments then [Logger_info Stream_segments_is_True] else [])
         @ evs
         @ (case status of None \<Rightarrow> [] | Some e \<Rightarrow> [Logger_error e])
         @ [Queue_put None, Thread_joined, Queue_deleted])"
  using assms
  by (cases status) (simp_all add: generate_stream_def Let_def and_then_emit and_then_Inr)

lemma generate_stream_escapes:
  assumes "split_text text None \<noteq> []"
    and "for_segments cls self speaker temperature repetition_penalty max_length
        additional_gen_config additional_dynamic_generator_config chunk_size stream_segments
        0 (length (split_text text None)) (split_text text None) = (evs, Some e)"
    and "\<not> is_Exception e"
  shows "generate_stream cls self text speaker temperature repetition_penalty max_length
        additional_gen_config additional_dynamic_generator_config chunk_size stream_segments
      = (Inl e,
         [Queue_created, Thread_started, Logger_info (Processing_text (length text)),
          Logger_info (Split_text_into (length (split_text text None))
                         (sum_list (map length (split_text text None))))]
         @ (if stream_segments then [Logger_info Stream_segments_is_True] else [])
         @ evs)"
  using assms
  by (simp add: generate_stream_def Let_def and_then_emit and_then_Inr)

lemma for_segments_stopped:
  assumes "chunk_size < 4 \<or> max_length = None \<or> (\<exists>n. max_length = Some n \<and> n > max_seq_length self)"
  shows "\<exists>m. for_segments cls self speaker temperature repetition_penalty max_length
     additional_gen_config additional_dynamic_generator_config chunk_size stream_segments
     idx n (segment # rest) = ([Logger_info (Processing_segment (idx + 1) n)], Some (ValueError m))"
proof (cases "chunk_size < 4")
  case True
  from for_segments_fails_first [OF priv_generate_stream_small_chunk [OF True]]
  show ?thesis by blast
next
  case False
  with assms have "4 \<le> chunk_size"
    and "max_length = None \<or> (\<exists>n. max_length = Some n \<and> n > max_seq_length self)"
    by auto
  from priv_generate_stream_invalid [OF this] obtain m where
    "priv_generate_stream cls self segment speaker temperature repetition_penalty max_length
       additional_gen_config additional_dynamic_generator_config chunk_size stream_segments
     = ([], Some (ValueError m))" by blast
  from for_segments_fails_first [OF this] show ?thesis by blast
qed

lemma generate_stream_invalid:
  assumes "max_length = None \<or> (\<exists>n. max_length = Some n \<and> n > max_seq_length self)"
  shows "\<not> list_ex backend_generation (snd (generate_stream cls self text speaker temperature
           repetition_penalty max_length additional_gen_config
           additional_dynamic_generator_config chunk_size stream_segments))"
proof (cases "split_text text None")
  case Nil
  show ?thesis by (simp add: generate_stream_no_segments [OF Nil])
next
  case (Cons segment rest)
  from assms for_segments_stopped obtain m where
    f: "for_segments cls self speaker temperature repetition_penalty max_length
     additional_gen_config additional_dynamic_generator_config chunk_size stream_segments
     0 (length (split_text text None)) (split_text text None)
     = ([Logger_info (Processing_segment (0 + 1) (length (split_text text None)))],
        Some (ValueError m))"
    unfolding Cons by blast
  have "split_text text None \<noteq> []" using Cons by simp
  from this f show ?thesis by (simp add: generate_stream_segments)
qed

subsection \<open>The events of the loop over the segments, and the player\<close>

lemma puts_append [simp]: "puts (xs @ ys) = puts xs @ puts ys"
  by (induction xs rule: puts.induct) simp_all

lemma priv_audio_player_chunks:
  "priv_audio_player (map Some chunks @ [None]) = (chunks, Stopped)"
  "priv_audio_player (map Some chunks) = (chunks, Blocked)"
  by (induction chunks) simp_all

lemma priv_audio_player_fifo:
  "map Some (fst (priv_audio_player items)) = takeWhile (\<lambda>item. item \<noteq> None) items"
  by (induction items rule: priv_audio_player.induct) (auto split: prod.splits)

lemma priv_audio_player_end:
  "snd (priv_audio_player items) = (if None \<in> set items then Stopped else Blocked)"
  by (induction items rule: priv_audio_player.induct) (auto split: prod.splits)

lemma body_events_puts:
  assumes "list_all body_event evs"
  shows "\<exists>chunks. puts evs = map Some chunks"
  using assms
proof (induction evs rule: puts.induct)
  case 1
  show ?case by simp
next
  case (2 item evs)
  then obtain chunks where c: "puts evs = map Some chunks" by auto
  from 2 obtain chunk where "item = Some chunk" by (cases item) auto
  with c have "puts (Queue_put item # evs) = map Some (chunk # chunks)" by simp
  then show ?case by blast
qed simp_all

lemma body_events_none:
  assumes "list_all body_event evs"
  shows "count_list evs Thread_started = 0" and "Thread_joined \<notin> set evs"
    and "Queue_put None \<notin> set evs" and "count_list evs Queue_created = 0"
  using assms by (induction evs) auto

lemma get_audio_body: "list_all body_event (snd (get_audio self tokens))"
  by (cases "extract_audio_from_tokens self tokens";
      cases "audio_codec_decode self (projr (extract_audio_from_tokens self tokens))")
     (simp_all add: get_audio_def lib_def and_then_Inr and_then_emit ret_def)

lemma priv_create_audio_chunk_body:
  "list_all body_event (snd (priv_create_audio_chunk self tokens idx))"
proof (cases "get_audio self tokens" rule: eff_cases)
  case (Raise e evs)
  with get_audio_body [of self tokens] show ?thesis
    by (simp add: priv_create_audio_chunk_def)
next
  case (Return x evs)
  with get_audio_body [of self tokens] show ?thesis
    by (cases x) (simp_all add: priv_create_audio_chunk_def and_then_Inr raise_def ret_def)
qed

lemma stream_setup_events: "snd (stream_setup cls self text speaker max_length) = []"
  by (cases cls)
     (auto simp: stream_setup_def check_generation_max_length_def prepare_prompt_def
        InterfaceHF_prepare_prompt_def InterfaceGGUF_prepare_prompt_def
        InterfaceEXL2_prepare_prompt_def lib_def and_then_def ret_def raise_def
        split: sum.splits option.splits list.splits)

lemma stream_loop_body:
  "list_all (\<lambda>item. body_event (queue_item item))
     (fst (stream_loop self code_end_token chunk_size stream_segments tokens audio_buffer
             start_index chunks))"
proof (induction self code_end_token chunk_size stream_segments tokens audio_buffer
    start_index chunks rule: stream_loop.induct)
  case (1 self code_end_token chunk_size stream_segments audio_buffer start_index chunks)
  show ?case by simp
next
  case (2 self code_end_token chunk_size stream_segments token rest audio_buffer start_index
      chunks)
  show ?case
  proof (cases "\<not> stream_segments
      \<and> (if token = code_end_token then chunks + 1 else chunks) = chunk_size")
    case False
    with 2 show ?thesis by (auto simp: Let_def)
  next
    case True
    show ?thesis
    proof (cases "priv_create_audio_chunk self (audio_buffer @ [token]) start_index"
        rule: eff_cases)
      case (Raise e evs)
      with True priv_create_audio_chunk_body [of self "audio_buffer @ [token]" start_index]
      show ?thesis by (simp add: Let_def list_all_iff)
    next
      case (Return x evs)
      obtain chunk start_index' where x: "x = (chunk, start_index')" by (cases x)
      from 2(1) [OF refl _ refl _ Return [unfolded x, symmetric] refl] True
      have "list_all (\<lambda>item. body_event (queue_item item))
          (fst (stream_loop self code_end_token chunk_size stream_segments rest
                  (audio_buffer @ [token]) start_index' 0))"
        by simp
      with True Return x
        priv_create_audio_chunk_body [of self "audio_buffer @ [token]" start_index]
      show ?thesis by (auto simp: Let_def list_all_iff split: prod.splits)
    qed
  qed
qed

lemma priv_generate_stream_body:
  "list_all (\<lambda>item. body_event (queue_item item))
     (fst (priv_generate_stream cls self text speaker temperature repetition_penalty max_length
             additional_gen_config additional_dynamic_generator_config chunk_size
             stream_segments))"
proof (cases "chunk_size < 4")
  case True
  then show ?thesis by (simp add: priv_generate_stream_def)
next
  case False
  show ?thesis
  proof (cases "stream_setup cls self text speaker max_length" rule: eff_cases)
    case (Raise e evs)
    with stream_setup_events [of cls self "text" speaker max_length] False
    show ?thesis by (simp add: priv_generate_stream_def)
  next
    case (Return x evs)
    obtain code_end_token input_ids where x: "x = (code_end_token, input_ids)" by (cases x)
    from Return stream_setup_events [of cls self "text" speaker max_length]
    have evs: "evs = []" by simp
    define call where "call = \<lparr>bc_input_ids = input_ids,
        bc_config = \<lparr>gc_temperature = temperature, gc_repetition_penalty = repetition_penalty,
                     gc_max_length = max_length,
                     gc_additional_gen_config = additional_gen_config\<rparr>,
        bc_additional_dynamic_generator_config = None\<rparr>"
    obtain tokens failure where m: "model_generate_stream self call = (tokens, failure)"
      by (cases "model_generate_stream self call")
    obtain items r where l: "stream_loop self code_end_token chunk_size stream_segments tokens
        [] 0 0 = (items, r)"
      by (cases "stream_loop self code_end_token chunk_size stream_segments tokens [] 0 0")
    from stream_loop_body [of self code_end_token chunk_size stream_segments tokens "[]" 0 0] l
    have items: "list_all (\<lambda>item. body_event (queue_item item)) items" by simp
    show ?thesis
    proof (cases r)
      case (Inl e)
      with False Return x evs m l items show ?thesis
        by (simp add: priv_generate_stream_def Let_def call_def [symmetric])
    next
      case (Inr state)
      obtain audio_buffer start_index chunks where
        state: "state = (audio_buffer, start_index, chunks)" by (cases state)
      show ?thesis
      proof (cases "priv_create_audio_chunk self audio_buffer start_index" rule: eff_cases)
        case (Raise e evs')
        with priv_create_audio_chunk_body [of self audio_buffer start_index]
        have "list_all body_event evs'" by simp
        with False Return x evs m l items Inr state Raise show ?thesis
          by (auto simp: priv_generate_stream_def Let_def call_def [symmetric] list_all_iff
              split: option.splits)
      next
        case (Return y evs')
        obtain chunk n where y: "y = (chunk, n)" by (cases y)
        from Return priv_create_audio_chunk_body [of self audio_buffer start_index]
        have "list_all body_event evs'" by simp
        with False \<open>stream_setup cls self text speaker max_length = (Inr x, evs)\<close>
          x evs m l items Inr state Return y show ?thesis
          by (auto simp: priv_generate_stream_def Let_def call_def [symmetric] list_all_iff
              split: option.splits)
      qed
    qed
  qed
qed

lemma for_segments_body:
  "list_all body_event
     (fst (for_segments cls self speaker temperature repetition_penalty max_length
             additional_gen_config additional_dynamic_generator_config chunk_size
             stream_segments idx n segments))"
proof (induction segments arbitrary: idx)
  case Nil
  show ?case by (simp add: for_segments.simps)
next
  case (Cons segment rest)
  obtain items status where g: "priv_generate_stream cls self segment speaker temperature
      repetition_penalty max_length additional_gen_config additional_dynamic_generator_config
      chunk_size stream_segments = (items, status)"
    by (cases "priv_generate_stream cls self segment speaker temperature
      repetition_penalty max_length additional_gen_config additional_dynamic_generator_config
      chunk_size stream_segments")
  from priv_generate_stream_body [of cls self segment speaker temperature
      repetition_penalty max_length additional_gen_config additional_dynamic_generator_config
      chunk_size stream_segments] g
  have items: "list_all body_event (map queue_item items)" by (simp add: list_all_iff)
  show ?case
  proof (cases status)
    case (Some e)
    with g items show ?thesis by (simp add: for_segments.simps)
  next
    case None
    with g items Cons [of "idx + 1"] show ?thesis
      by (auto simp: for_segments.simps split: prod.splits)
  qed
qed

lemma demo_stream_run:
  "priv_generate_stream InterfaceHF demo_interface [104, 105] None 0.1 1.1 (Some 4096) [] [] 4
       False
     = ([Event (Model_generate_stream
                 \<lparr>bc_input_ids = Tensor_ids [104, 105],
                  bc_config = \<lparr>gc_temperature = 0.1, gc_repetition_penalty = 1.1,
                               gc_max_length = Some 4096, gc_additional_gen_config = []\<rparr>,
                  bc_additional_dynamic_generator_config = None\<rparr>),
         Event (Codec_decode [5, 6, 7, 8]),
         Yield (ModelOutput (Some [5, 6, 7, 8]) 24000),
         Event (Codec_decode [5, 6, 7, 8, 9, 3]),
         Yield (ModelOutput (Some [9, 3]) 24000)],
        None)"
proof -
  let ?call = "\<lparr>bc_input_ids = Tensor_ids [104, 105],
                  bc_config = \<lparr>gc_temperature = 0.1, gc_repetition_penalty = 1.1,
                               gc_max_length = Some 4096, gc_additional_gen_config = []\<rparr>,
                  bc_additional_dynamic_generator_config = None\<rparr>"
  let ?tokens = "[5, 0, 6, 0, 7, 0, 8, 0, 9, 0, 3] :: token list"
  have prepared: "stream_setup InterfaceHF demo_interface [104, 105] None (Some 4096)
      = (Inr (0, Tensor_ids [104, 105]), [])"
    by (simp add: stream_setup_def check_generation_max_length_def prepare_prompt_def
        InterfaceHF_prepare_prompt_def demo_interface_def lib_def and_then_Inr)
  have backend: "model_generate_stream demo_interface ?call = (?tokens, None)"
    by (simp add: demo_interface_def)
  have audio: "get_audio demo_interface [5, 0, 6, 0, 7, 0, 8, 0]
      = (Inr (Some [5, 6, 7, 8]), [Codec_decode [5, 6, 7, 8]])"
    "get_audio demo_interface ?tokens
      = (Inr (Some [5, 6, 7, 8, 9, 3]), [Codec_decode [5, 6, 7, 8, 9, 3]])"
    by (simp_all add: get_audio_def demo_interface_def lib_def and_then_Inr and_then_emit)
  have chunk: "priv_create_audio_chunk demo_interface [5, 0, 6, 0, 7, 0, 8, 0] 0
      = (Inr (ModelOutput (Some [5, 6, 7, 8]) 24000, 4), [Codec_decode [5, 6, 7, 8]])"
    "priv_create_audio_chunk demo_interface ?tokens 4
      = (Inr (ModelOutput (Some [9, 3]) 24000, 6), [Codec_decode [5, 6, 7, 8, 9, 3]])"
    by (simp_all add: priv_create_audio_chunk_def audio and_then_Inr)
      (simp_all add: demo_interface_def)
  have loop: "stream_loop demo_interface 0 4 False ?tokens [] 0 0
      = ([Event (Codec_decode [5, 6, 7, 8]), Yield (ModelOutput (Some [5, 6, 7, 8]) 24000)],
         Inr (?tokens, 4, 1))"
    by (simp add: chunk Let_def)
  show ?thesis
    by (simp add: priv_generate_stream_def prepared backend loop chunk(2)
        del: stream_loop.simps)
qed

subsection \<open>The claims on validation and the producer\<close>

text \<open>
  C1. \<open>check_generation_max_length\<close> raises ValueError exactly when \<open>max_length\<close> is
  \<open>None\<close> or greater than \<open>config.max_seq_length\<close>, and returns otherwise; \<open>max_length\<close>
  equal to \<open>max_seq_length\<close> is accepted. When \<open>max_length\<close> is rejected, \<open>generate\<close> of
  each of the three interfaces ends with an exception and \<open>generate\<close> and
  \<open>generate_stream\<close> perform no generation by the backend model.
\<close>

theorem check_generation_max_length_raises:
  "((\<exists>m. fst (check_generation_max_length self max_length) = Inl (ValueError m))
      \<longleftrightarrow> (max_length = None \<or> (\<exists>n. max_length = Some n \<and> n > max_seq_length self)))
   \<and> (fst (check_generation_max_length self max_length) = Inr ()
      \<longleftrightarrow> (\<exists>n. max_length = Some n \<and> n \<le> max_seq_length self))
   \<and> check_generation_max_length self (Some (max_seq_length self)) = (Inr (), [])
   \<and> (max_length = None \<or> (\<exists>n. max_length = Some n \<and> n > max_seq_length self) \<longrightarrow>
        isl (fst (InterfaceHF_generate self text speaker temperature repetition_penalty
                    max_length additional_gen_config))
      \<and> \<not> list_ex backend_generation (snd (InterfaceHF_generate self text speaker temperature
                    repetition_penalty max_length additional_gen_config))
      \<and> isl (fst (InterfaceGGUF_generate self text speaker temperature repetition_penalty
                    max_length additional_gen_config))
      \<and> \<not> list_ex backend_generation (snd (InterfaceGGUF_generate self text speaker temperature
                    repetition_penalty max_length additional_gen_config))
      \<and> isl (fst (InterfaceEXL2_generate self text speaker temperature repetition_penalty
                    max_length additional_gen_config additional_dynamic_generator_config))
      \<and> \<not> list_ex backend_generation (snd (InterfaceEXL2_generate self text speaker temperature
                    repetition_penalty max_length additional_gen_config
                    additional_dynamic_generator_config))
      \<and> \<not> list_ex backend_generation (snd (generate_stream cls self text speaker temperature
                    repetition_penalty max_length additional_gen_config
                    additional_dynamic_generator_config chunk_size stream_segments)))"
proof (intro conjI impI)
  show "(\<exists>m. fst (check_generation_max_length self max_length) = Inl (ValueError m))
      \<longleftrightarrow> (max_length = None \<or> (\<exists>n. max_length = Some n \<and> n > max_seq_length self))"
    by (cases max_length) (auto simp: check_generation_max_length_def raise_def ret_def)
  show "fst (check_generation_max_length self max_length) = Inr ()
      \<longleftrightarrow> (\<exists>n. max_length = Some n \<and> n \<le> max_seq_length self)"
    by (cases max_length) (auto simp: check_generation_max_length_def raise_def ret_def)
  show "check_generation_max_length self (Some (max_seq_length self)) = (Inr (), [])"
    by (simp add: check_valid)
next
  assume a: "max_length = None \<or> (\<exists>n. max_length = Some n \<and> n > max_seq_length self)"
  note g = generate_invalid [OF a]
  show "isl (fst (InterfaceHF_generate self text speaker temperature repetition_penalty
                    max_length additional_gen_config))"
    and "\<not> list_ex backend_generation (snd (InterfaceHF_generate self text speaker temperature
                    repetition_penalty max_length additional_gen_config))"
    using g(1) by blast+
  show "isl (fst (InterfaceGGUF_generate self text speaker temperature repetition_penalty
                    max_length additional_gen_config))"
    and "\<not> list_ex backend_generation (snd (InterfaceGGUF_generate self text speaker temperature
                    repetition_penalty max_length additional_gen_config))"
    using g(2) by blast+
  show "isl (fst (InterfaceEXL2_generate self text speaker temperature repetition_penalty
                    max_length additional_gen_config additional_dynamic_generator_config))"
    and "\<not> list_ex backend_generation (snd (InterfaceEXL2_generate self text speaker temperature
                    repetition_penalty max_length additional_gen_config
                    additional_dynamic_generator_config))"
    using g(3) by blast+
  show "\<not> list_ex backend_generation (snd (generate_stream cls self text speaker temperature
                    repetition_penalty max_length additional_gen_config
                    additional_dynamic_generator_config chunk_size stream_segments))"
    by (rule generate_stream_invalid [OF a])
qed

theorem check_generation_max_length_raises_witness:
  "max_seq_length demo_interface < 5000
   \<and> fst (check_generation_max_length demo_interface (Some 5000))
       = Inl (ValueError (Max_length_exceeds 5000 4096))
   \<and> check_generation_max_length demo_interface (Some 4096) = (Inr (), [])
   \<and> isl (fst (InterfaceHF_generate demo_interface [104, 105] None 0.1 1.1 (Some 5000) []))
   \<and> \<not> list_ex backend_generation
         (snd (InterfaceHF_generate demo_interface [104, 105] None 0.1 1.1 (Some 5000) []))
   \<and> \<not> list_ex backend_generation
         (snd (generate_stream InterfaceGGUF demo_interface [104, 105] None 0.1 1.1 (Some 5000)
                 [] [] 8 False))"
proof -
  have m: "max_seq_length demo_interface = 4096"
    by (simp add: demo_interface_def)
  then have a: "Some 5000 = (None :: int option)
      \<or> (\<exists>n. Some 5000 = Some n \<and> n > max_seq_length demo_interface)"
    by simp
  have c: "fst (check_generation_max_length demo_interface (Some 5000))
       = Inl (ValueError (Max_length_exceeds 5000 4096))"
    by (simp add: check_generation_max_length_def m raise_def)
  from check_generation_max_length_raises [of demo_interface "Some 5000" "[104, 105]" None
      "0.1" "1.1" "[]" "[]" InterfaceGGUF 8 False] a m c
  show ?thesis by simp
qed








text \<open>
  C7. In every run of \<open>generate_stream\<close> one queue is created and one playback thread is
  started. The items put on the queue, all by the calling thread, are audio chunks, followed
  by the \<open>None\<close> sentinel exactly when \<open>generate_stream\<close> returns. \<open>_audio_player\<close> plays
  the chunks in the order in which they were put, for any sequence of items it plays the
  items before the first \<open>None\<close> and none after it, and on the items of a run that returns
  it ends at the sentinel. When \<open>generate_stream\<close> returns, the sentinel, the join of the
  thread and the deletion of the queue are its last three operations, and it has put no
  other sentinel and joined no thread before.
\<close>

theorem generate_stream_single_consumer:
  fixes self :: "'s interface"
  assumes "generate_stream cls self text speaker temperature repetition_penalty max_length
      additional_gen_config additional_dynamic_generator_config chunk_size stream_segments
    = (r, evs)"
  shows "count_list evs Queue_created = 1 \<and> count_list evs Thread_started = 1
    \<and> (\<exists>chunks.
          puts evs = map Some chunks @ (if r = Inr () then [None] else [])
        \<and> priv_audio_player (puts evs) = (chunks, if r = Inr () then Stopped else Blocked))
    \<and> (\<forall>items. map Some (fst (priv_audio_player items))
                  = takeWhile (\<lambda>item. item \<noteq> None) items)
    \<and> (r = Inr () \<longrightarrow>
         (\<exists>body. evs = body @ [Queue_put None, Thread_joined, Queue_deleted]
               \<and> Queue_put None \<notin> set body \<and> Thread_joined \<notin> set body))"
proof -
  define header :: "'s event list" where "header =
    [Queue_created, Thread_started, Logger_info (Processing_text (length text)),
     Logger_info (Split_text_into (length (split_text text None))
                    (sum_list (map length (split_text text None))))]
    @ (if stream_segments then [Logger_info Stream_segments_is_True] else [])"
  have header: "count_list header Queue_created = 1" "count_list header Thread_started = 1"
    "puts header = []" "Queue_put None \<notin> set header" "Thread_joined \<notin> set header"
    by (simp_all add: header_def)
  have fifo: "\<forall>items. map Some (fst (priv_audio_player items))
                  = takeWhile (\<lambda>item. item \<noteq> None) items"
    by (simp add: priv_audio_player_fifo)
  show ?thesis
  proof (cases "split_text text None = []")
    case True
    from assms
    have "r = Inl ZeroDivisionError"
      and "evs = [Queue_created, Thread_started, Logger_info (Processing_text (length text))]"
      unfolding generate_stream_no_segments [OF True] by simp_all
    with fifo show ?thesis by simp
  next
    case False
    obtain body status where f: "for_segments cls self speaker temperature repetition_penalty
        max_length additional_gen_config additional_dynamic_generator_config chunk_size
        stream_segments 0 (length (split_text text None)) (split_text text None)
      = (body, status)"
      by (cases "for_segments cls self speaker temperature repetition_penalty
        max_length additional_gen_config additional_dynamic_generator_config chunk_size
        stream_segments 0 (length (split_text text None)) (split_text text None)")
    from for_segments_body [of cls self speaker temperature repetition_penalty
        max_length additional_gen_config additional_dynamic_generator_config chunk_size
        stream_segments 0 "length (split_text text None)" "split_text text None"] f
    have body: "list_all body_event body" by simp
    from body_events_puts [OF body] obtain chunks where chunks: "puts body = map Some chunks"
      by blast
    note none = body_events_none [OF body]
    show ?thesis
    proof (cases "case status of None \<Rightarrow> True | Some e \<Rightarrow> is_Exception e")
      case True
      define logged :: "'s event list" where "logged = (case status of None \<Rightarrow> [] | Some e \<Rightarrow> [Logger_error e])"
      have logged: "count_list logged Queue_created = 0" "count_list logged Thread_started = 0"
        "puts logged = []" "Queue_put None \<notin> set logged" "Thread_joined \<notin> set logged"
        by (simp_all add: logged_def split: option.splits)
      from generate_stream_segments [OF False f True] assms
      have r: "r = Inr ()"
        and evs: "evs = (header @ body @ logged) @ [Queue_put None, Thread_joined, Queue_deleted]"
        by (simp_all add: header_def logged_def)
      have counts: "count_list evs Queue_created = 1 \<and> count_list evs Thread_started = 1"
        using header none logged by (simp add: evs)
      have p: "puts evs = map Some chunks @ [None]"
        using header logged chunks by (simp add: evs)
      have played: "\<exists>chunks.
          puts evs = map Some chunks @ (if r = Inr () then [None] else [])
        \<and> priv_audio_player (puts evs) = (chunks, if r = Inr () then Stopped else Blocked)"
        using p r by (intro exI [of _ chunks]) (simp add: priv_audio_player_chunks)
      have "Queue_put None \<notin> set (header @ body @ logged)
          \<and> Thread_joined \<notin> set (header @ body @ logged)"
        using header none logged by simp
      with evs have joined: "r = Inr () \<longrightarrow>
         (\<exists>body. evs = body @ [Queue_put None, Thread_joined, Queue_deleted]
               \<and> Queue_put None \<notin> set body \<and> Thread_joined \<notin> set body)"
        by blast
      from counts played fifo joined show ?thesis by (intro conjI) simp_all
    next
      case escapes: False
      then obtain e where status: "status = Some e" and e: "\<not> is_Exception e"
        by (cases status) simp_all
      from generate_stream_escapes [OF False f [unfolded status] e] assms
      have r: "r = Inl e" and evs: "evs = header @ body"
        by (simp_all add: header_def)
      have counts: "count_list evs Queue_created = 1 \<and> count_list evs Thread_started = 1"
        using header none by (simp add: evs)
      have p: "puts evs = map Some chunks"
        using header chunks by (simp add: evs)
      have played: "\<exists>chunks.
          puts evs = map Some chunks @ (if r = Inr () then [None] else [])
        \<and> priv_audio_player (puts evs) = (chunks, if r = Inr () then Stopped else Blocked)"
        using p r by (intro exI [of _ chunks]) (simp add: priv_audio_player_chunks)
      from counts played fifo r show ?thesis by (intro conjI) simp_all
    qed
  qed
qed


theorem generate_stream_single_consumer_witness:
  "generate_stream InterfaceHF demo_interface [104, 105] None 0.1 1.1 (Some 4096) [] [] 4 False
     = (Inr (),
        [Queue_created, Thread_started, Logger_info (Processing_text 2),
         Logger_info (Split_text_into 1 2), Logger_info (Processing_segment 1 1),
         Model_generate_stream
           \<lparr>bc_input_ids = Tensor_ids [104, 105],
            bc_config = \<lparr>gc_temperature = 0.1, gc_repetition_penalty = 1.1,
                         gc_max_length = Some 4096, gc_additional_gen_config = []\<rparr>,
            bc_additional_dynamic_generator_config = None\<rparr>,
         Codec_decode [5, 6, 7, 8],
         Queue_put (Some (ModelOutput (Some [5, 6, 7, 8]) 24000)),
         Codec_decode [5, 6, 7, 8, 9, 3],
         Queue_put (Some (ModelOutput (Some [9, 3]) 24000)),
         Queue_put None, Thread_joined, Queue_deleted])
   \<and> priv_audio_player
         [Some (ModelOutput (Some [5, 6, 7, 8]) 24000), Some (ModelOutput (Some [9, 3]) 24000),
          None]
     = ([ModelOutput (Some [5, 6, 7, 8]) 24000, ModelOutput (Some [9, 3]) 24000], Stopped)"
proof -
  let ?call = "\<lparr>bc_input_ids = Tensor_ids [104, 105],
                  bc_config = \<lparr>gc_temperature = 0.1, gc_repetition_penalty = 1.1,
                               gc_max_length = Some 4096, gc_additional_gen_config = []\<rparr>,
                  bc_additional_dynamic_generator_config = None\<rparr>"
  let ?evs = "[Queue_created, Thread_started, Logger_info (Processing_text 2),
         Logger_info (Split_text_into 1 2), Logger_info (Processing_segment 1 1),
         Model_generate_stream ?call,
         Codec_decode [5, 6, 7, 8],
         Queue_put (Some (ModelOutput (Some [5, 6, 7, 8]) 24000)),
         Codec_decode [5, 6, 7, 8, 9, 3],
         Queue_put (Some (ModelOutput (Some [9, 3]) 24000)),
         Queue_put None, Thread_joined, Queue_deleted] :: nat event list"
  have sp: "split_text [104, 105] None = [[104, 105]]"
    by (simp add: split_text_def re_split_def default_delimiters_def strip_def is_space_def
        re_split_from.simps)
  have segments: "for_segments InterfaceHF demo_interface None 0.1 1.1 (Some 4096) [] [] 4 False
          0 (length (split_text [104, 105] None)) (split_text [104, 105] None)
        = ([Logger_info (Processing_segment 1 1),
            Model_generate_stream ?call,
            Codec_decode [5, 6, 7, 8],
            Queue_put (Some (ModelOutput (Some [5, 6, 7, 8]) 24000)),
            Codec_decode [5, 6, 7, 8, 9, 3],
            Queue_put (Some (ModelOutput (Some [9, 3]) 24000))],
           None)"
    by (simp add: sp for_segments.simps demo_stream_run)
  have ne: "split_text [104, 105] None \<noteq> []" using sp by simp
  have run: "generate_stream InterfaceHF demo_interface [104, 105] None 0.1 1.1 (Some 4096)
      [] [] 4 False = (Inr (), ?evs)"
    using generate_stream_segments [OF ne segments] by (simp add: sp)
  note consumer = generate_stream_single_consumer [OF run]
  from consumer obtain chunks where
    p: "puts ?evs = map Some chunks @ (if (Inr () :: error + unit) = Inr () then [None] else [])"
    and q: "priv_audio_player (puts ?evs)
      = (chunks, if (Inr () :: error + unit) = Inr () then Stopped else Blocked)"
    by blast
  from p have "map Some chunks
      = [Some (ModelOutput (Some [5, 6, 7, 8]) 24000), Some (ModelOutput (Some [9, 3]) 24000)]"
    by simp
  then have "chunks = [ModelOutput (Some [5, 6, 7, 8]) 24000, ModelOutput (Some [9, 3]) 24000]"
    by (auto simp: map_eq_Cons_conv)
  with q have "priv_audio_player
         [Some (ModelOutput (Some [5, 6, 7, 8]) 24000), Some (ModelOutput (Some [9, 3]) 24000),
          None]
     = ([ModelOutput (Some [5, 6, 7, 8]) 24000, ModelOutput (Some [9, 3]) 24000], Stopped)"
    by simp
  with run show ?thesis by simp
qed

text \<open>
  C10. When \<open>split_text\<close> returns no segment, \<open>generate_stream\<close> ends with
  ZeroDivisionError while it builds the log line with the average segment length. Until
  then it has created the queue, started the playback thread and logged the length of
  the text: nothing was generated, no sentinel was put on the queue and the thread was
  not joined.
\<close>

theorem generate_stream_empty_split:
  assumes "split_text text None = []"
  shows "generate_stream cls self text speaker temperature repetition_penalty max_length
           additional_gen_config additional_dynamic_generator_config chunk_size stream_segments
         = (Inl ZeroDivisionError,
            [Queue_created, Thread_started, Logger_info (Processing_text (length text))])"
  by (rule generate_stream_no_segments [OF assms])

theorem generate_stream_empty_split_witness:
  "split_text [46, 32, 33] None = []
   \<and> generate_stream InterfaceHF demo_interface [46, 32, 33] None 0.1 1.1 (Some 4096) [] [] 8 True
       = (Inl ZeroDivisionError, [Queue_created, Thread_started, Logger_info (Processing_text 3)])"
proof -
  have e: "split_text [46, 32, 33] None = []"
    by (simp add: split_text_def re_split_def default_delimiters_def strip_def is_space_def
        re_split_from.simps)
  from generate_stream_empty_split [OF e, of InterfaceHF demo_interface None "0.1" "1.1"
      "Some 4096" "[]" "[]" 8 True]
  show ?thesis using e by simp
qed

subsection \<open>The speaker builder\<close>

lemma words_loop_error: "words_loop self full_codes start ws = Inl e \<Longrightarrow> e = IndexError"
  by (induction ws arbitrary: start)
    (auto simp: Let_def split: list.splits sum.splits)

lemma words_loop_entries:
  "words_loop self full_codes start ws = Inr data \<Longrightarrow>
   length data = length ws \<and>
   (\<forall>k < length ws. \<exists>codes00 r0 r1.
      full_codes = (codes00 # r0) # r1 \<and>
      entry_word (data ! k) = aw_word (ws ! k) \<and>
      entry_codes (data ! k) =
        (let slice = py_slice codes00
               (if k = 0 then start
                else frame_index self (aw_x1 (ws ! (k - 1))) (ctc_sample_rate self))
               (frame_index self (aw_x1 (ws ! k)) (ctc_sample_rate self))
         in if slice = [] then [1] else slice) \<and>
      entry_duration (data ! k) = py_round_2 (real (length (entry_codes (data ! k))) / 75))"
proof (induction ws arbitrary: start data)
  case Nil
  then show ?case by simp
next
  case (Cons w ws)
  let ?end = "frame_index self (aw_x1 w) (ctc_sample_rate self)"
  from Cons.prems obtain codes00 r0 r1 data' where
    fc: "full_codes = (codes00 # r0) # r1"
    and rec: "words_loop self full_codes ?end ws = Inr data'"
    and data: "data =
      \<lparr>entry_word = aw_word w,
       entry_duration = py_round_2 (real (length
         (if py_slice codes00 start ?end = [] then [1] else py_slice codes00 start ?end)) / 75),
       entry_codes = (if py_slice codes00 start ?end = [] then [1]
                      else py_slice codes00 start ?end)\<rparr> # data'"
    by (auto simp: Let_def split: list.splits sum.splits)
  from Cons.IH [OF rec] have len: "length data' = length ws"
    and rest: "\<forall>k < length ws. \<exists>codes00 r0 r1.
      full_codes = (codes00 # r0) # r1 \<and>
      entry_word (data' ! k) = aw_word (ws ! k) \<and>
      entry_codes (data' ! k) =
        (let slice = py_slice codes00
               (if k = 0 then ?end
                else frame_index self (aw_x1 (ws ! (k - 1))) (ctc_sample_rate self))
               (frame_index self (aw_x1 (ws ! k)) (ctc_sample_rate self))
         in if slice = [] then [1] else slice) \<and>
      entry_duration (data' ! k) = py_round_2 (real (length (entry_codes (data' ! k))) / 75)"
    by simp_all
  show ?case
  proof (intro conjI allI impI)
    show "length data = length (w # ws)" using data len by simp
  next
    fix k assume k: "k < length (w # ws)"
    show "\<exists>codes00 r0 r1.
      full_codes = (codes00 # r0) # r1 \<and>
      entry_word (data ! k) = aw_word ((w # ws) ! k) \<and>
      entry_codes (data ! k) =
        (let slice = py_slice codes00
               (if k = 0 then start
                else frame_index self (aw_x1 ((w # ws) ! (k - 1))) (ctc_sample_rate self))
               (frame_index self (aw_x1 ((w # ws) ! k)) (ctc_sample_rate self))
         in if slice = [] then [1] else slice) \<and>
      entry_duration (data ! k) = py_round_2 (real (length (entry_codes (data ! k))) / 75)"
    proof (cases k)
      case 0
      with fc data show ?thesis by (simp add: Let_def)
    next
      case (Suc j)
      with k have j: "j < length ws" by simp
      from rest j obtain c00 q0 q1 where
        f: "full_codes = (c00 # q0) # q1"
        and w: "entry_word (data' ! j) = aw_word (ws ! j)"
        and c: "entry_codes (data' ! j) =
          (let slice = py_slice c00
               (if j = 0 then ?end
                else frame_index self (aw_x1 (ws ! (j - 1))) (ctc_sample_rate self))
               (frame_index self (aw_x1 (ws ! j)) (ctc_sample_rate self))
           in if slice = [] then [1] else slice)"
        and d: "entry_duration (data' ! j)
          = py_round_2 (real (length (entry_codes (data' ! j))) / 75)"
        by blast
      from f w c d show ?thesis
        unfolding Suc data by (cases j) (simp_all add: Let_def)
    qed
  qed
qed

text \<open>
  The run of \<open>create_speaker\<close> from the transcript on: the part after the transcript has
  been obtained.
\<close>

lemma create_speaker_given:
  "create_speaker self audio_path (Some t) whisper_model whisper_device =
     (if t = [] then (Inl (ValueError Transcript_text_is_empty), [])
      else after [Ctc_align audio_path t (language self)]
        (and_then (lib (ctc_align self audio_path t (language self))) (\<lambda>words.
         and_then (emit Ctc_free) (\<lambda>_.
         and_then (emit Codec_encode) (\<lambda>_.
         and_then (lib (audio_codec_encode self (map aw_audio words) (ctc_sample_rate self)))
           (\<lambda>full_codes.
         and_then (words_loop self full_codes 0 words, []) (\<lambda>data.
         ret \<lparr>speaker_text = t, speaker_words = data,
              speaker_language = language self\<rparr>)))))))"
  by (simp add: create_speaker_def and_then_emit raise_def)

lemma create_speaker_transcribed:
  "create_speaker self audio_path None whisper_model whisper_device =
     after [Logger_info Transcription_not_provided, Whisper_transcribe audio_path]
       (case transcribe_once self audio_path whisper_model whisper_device of
          Inl c \<Rightarrow> (Inl (lib_error c), [])
        | Inr t \<Rightarrow> create_speaker self audio_path (Some t) whisper_model whisper_device)"
  by (cases "transcribe_once self audio_path whisper_model whisper_device")
    (simp_all add: create_speaker_def and_then_emit and_then_assoc lib_def and_then_Inr)

lemma create_speaker_given_result:
  assumes "t \<noteq> []"
  shows "(\<exists>e evs. create_speaker self audio_path (Some t) whisper_model whisper_device
             = (Inl e, evs) \<and> e \<noteq> ValueError Transcript_text_is_empty)
       \<or> (\<exists>words full_codes data.
             ctc_align self audio_path t (language self) = Inr words
           \<and> audio_codec_encode self (map aw_audio words) (ctc_sample_rate self) = Inr full_codes
           \<and> words_loop self full_codes 0 words = Inr data
           \<and> create_speaker self audio_path (Some t) whisper_model whisper_device
               = (Inr \<lparr>speaker_text = t, speaker_words = data,
                        speaker_language = language self\<rparr>,
                  [Ctc_align audio_path t (language self), Ctc_free, Codec_encode]))"
proof (cases "ctc_align self audio_path t (language self)")
  case (Inl c)
  with assms show ?thesis by (simp add: create_speaker_given lib_def)
next
  case words: (Inr words)
  show ?thesis
  proof (cases "audio_codec_encode self (map aw_audio words) (ctc_sample_rate self)")
    case (Inl c)
    with assms words show ?thesis
      by (simp add: create_speaker_given lib_def and_then_Inr and_then_emit)
  next
    case full: (Inr full_codes)
    show ?thesis
    proof (cases "words_loop self full_codes 0 words")
      case (Inl e)
      then have "e = IndexError" by (rule words_loop_error)
      with assms words full Inl show ?thesis
        by (simp add: create_speaker_given lib_def and_then_Inr and_then_emit)
    next
      case (Inr data)
      with assms words full show ?thesis
        by (simp add: create_speaker_given lib_def and_then_Inr and_then_emit)
    qed
  qed
qed

text \<open>
  C4, as the code has it. When \<open>create_speaker\<close> returns a speaker, its text is the
  transcript (the one passed in, or the one whisper gave when none was passed), its
  language is the current language of the interface, and its words are one entry for
  each aligned word, in order. An entry carries the word's string, the codes, and the
  duration \<open>round(len(codes) / 75, 2)\<close> of the codes it carries. The codes are the slice
  of the first code sequence from the end frame of the word before (0 for the first
  word) to the end frame of the word, or the single code 1 when that slice is empty.
\<close>

theorem create_speaker_result:
  assumes "create_speaker self audio_path transcript whisper_model whisper_device = (Inr spk, evs)"
  shows "\<exists>t words full_codes.
      (transcript = Some t
        \<or> transcript = None
          \<and> transcribe_once self audio_path whisper_model whisper_device = Inr t)
    \<and> ctc_align self audio_path t (language self) = Inr words
    \<and> audio_codec_encode self (map aw_audio words) (ctc_sample_rate self) = Inr full_codes
    \<and> speaker_text spk = t
    \<and> speaker_language spk = language self
    \<and> length (speaker_words spk) = length words
    \<and> (\<forall>k < length words. \<exists>codes00 r0 r1.
          full_codes = (codes00 # r0) # r1 \<and>
          entry_word (speaker_words spk ! k) = aw_word (words ! k) \<and>
          entry_codes (speaker_words spk ! k) =
            (let slice = py_slice codes00
                   (if k = 0 then 0
                    else frame_index self (aw_x1 (words ! (k - 1))) (ctc_sample_rate self))
                   (frame_index self (aw_x1 (words ! k)) (ctc_sample_rate self))
             in if slice = [] then [1] else slice) \<and>
          entry_duration (speaker_words spk ! k)
            = py_round_2 (real (length (entry_codes (speaker_words spk ! k))) / 75))"
proof -
  obtain t where
    src: "transcript = Some t
        \<or> transcript = None
          \<and> transcribe_once self audio_path whisper_model whisper_device = Inr t"
    and run: "fst (create_speaker self audio_path (Some t) whisper_model whisper_device) = Inr spk"
  proof (cases transcript)
    case (Some t)
    with assms that [of t] show ?thesis by simp
  next
    case None
    show ?thesis
    proof (cases "transcribe_once self audio_path whisper_model whisper_device")
      case (Inl c)
      with assms None show ?thesis by (simp add: create_speaker_transcribed)
    next
      case (Inr t)
      with assms None
      have "fst (create_speaker self audio_path (Some t) whisper_model whisper_device) = Inr spk"
        by (simp add: create_speaker_transcribed after_def)
      with None Inr that [of t] show ?thesis by simp
    qed
  qed
  have ne: "t \<noteq> []"
  proof
    assume "t = []"
    with run show False by (simp add: create_speaker_given)
  qed
  from create_speaker_given_result [OF ne, of self audio_path whisper_model whisper_device]
  consider
    (fails) e evs' where
      "create_speaker self audio_path (Some t) whisper_model whisper_device = (Inl e, evs')"
  | (returns) words full_codes data where
      "ctc_align self audio_path t (language self) = Inr words"
      "audio_codec_encode self (map aw_audio words) (ctc_sample_rate self) = Inr full_codes"
      "words_loop self full_codes 0 words = Inr data"
      "create_speaker self audio_path (Some t) whisper_model whisper_device
         = (Inr \<lparr>speaker_text = t, speaker_words = data, speaker_language = language self\<rparr>,
            [Ctc_align audio_path t (language self), Ctc_free, Codec_encode])"
    by blast
  then show ?thesis
  proof cases
    case fails
    with run show ?thesis by simp
  next
    case returns
    from returns(4) run
    have spk: "spk = \<lparr>speaker_text = t, speaker_words = data, speaker_language = language self\<rparr>"
      by simp
    then have m1: "speaker_text spk = t" and m2: "speaker_language spk = language self"
      and data: "speaker_words spk = data"
      by simp_all
    from words_loop_entries [OF returns(3)]
    have m3: "length (speaker_words spk) = length words"
      and m4: "\<forall>k < length words. \<exists>codes00 r0 r1.
          full_codes = (codes00 # r0) # r1 \<and>
          entry_word (speaker_words spk ! k) = aw_word (words ! k) \<and>
          entry_codes (speaker_words spk ! k) =
            (let slice = py_slice codes00
                   (if k = 0 then 0
                    else frame_index self (aw_x1 (words ! (k - 1))) (ctc_sample_rate self))
                   (frame_index self (aw_x1 (words ! k)) (ctc_sample_rate self))
             in if slice = [] then [1] else slice) \<and>
          entry_duration (speaker_words spk ! k)
            = py_round_2 (real (length (entry_codes (speaker_words spk ! k))) / 75)"
      unfolding data by (rule conjunct1, rule conjunct2)
    show ?thesis
      by (intro exI [of _ t] exI [of _ words] exI [of _ full_codes] conjI)
        (rule src returns(1) returns(2) m1 m2 m3 m4)+
  qed
qed

theorem create_speaker_result_witness:
  "create_speaker demo_interface [97] (Some [104, 105]) [116] None
     = (Inr \<lparr>speaker_text = [104, 105],
             speaker_words =
               [\<lparr>entry_word = [104, 105], entry_duration = 3 / 100, entry_codes = [7, 8]\<rparr>,
                \<lparr>entry_word = [121, 111], entry_duration = 1 / 100, entry_codes = [1]\<rparr>],
             speaker_language = [101, 110]\<rparr>,
        [Ctc_align [97] [104, 105] [101, 110], Ctc_free, Codec_encode])
   \<and> (\<exists>t words full_codes.
        ctc_align demo_interface [97] t (language demo_interface) = Inr words
      \<and> audio_codec_encode demo_interface (map aw_audio words) (ctc_sample_rate demo_interface)
          = Inr full_codes
      \<and> t = [104, 105] \<and> length words = 2)"
proof -
  let ?spk = "\<lparr>speaker_text = [104, 105],
             speaker_words =
               [\<lparr>entry_word = [104, 105], entry_duration = 3 / 100, entry_codes = [7, 8]\<rparr>,
                \<lparr>entry_word = [121, 111], entry_duration = 1 / 100, entry_codes = [1]\<rparr>],
             speaker_language = [101, 110]\<rparr>"
  have frames: "frame_index demo_interface 4 150 = 2" "frame_index demo_interface 5 150 = 2"
    by (simp_all add: demo_interface_def)
  have rounds: "py_round_2 (1 / 75) = 1 / 100" "py_round_2 (2 / 75) = 3 / 100"
    by (simp_all add: py_round_2_def round_def)
  have fields: "language demo_interface = [101, 110]" "ctc_sample_rate demo_interface = 150"
    "ctc_align demo_interface [97] [104, 105] [101, 110]
       = Inr [\<lparr>aw_word = [104, 105], aw_x1 = 4, aw_audio = [4, 2]\<rparr>,
              \<lparr>aw_word = [121, 111], aw_x1 = 5, aw_audio = [3]\<rparr>]"
    "audio_codec_encode demo_interface [[4, 2], [3]] 150 = Inr [[[7, 8, 9]]]"
    by (simp_all add: demo_interface_def)
  have loop: "words_loop demo_interface [[[7, 8, 9]]] 0
         [\<lparr>aw_word = [104, 105], aw_x1 = 4, aw_audio = [4, 2]\<rparr>,
          \<lparr>aw_word = [121, 111], aw_x1 = 5, aw_audio = [3]\<rparr>]
     = Inr [\<lparr>entry_word = [104, 105], entry_duration = 3 / 100, entry_codes = [7, 8]\<rparr>,
            \<lparr>entry_word = [121, 111], entry_duration = 1 / 100, entry_codes = [1]\<rparr>]"
    by (simp add: frames fields rounds py_slice_def Let_def)
  have run: "create_speaker demo_interface [97] (Some [104, 105]) [116] None
     = (Inr ?spk, [Ctc_align [97] [104, 105] [101, 110], Ctc_free, Codec_encode])"
    by (simp add: create_speaker_given fields loop lib_def and_then_Inr and_then_emit
        del: words_loop.simps)
  from create_speaker_result [OF run] obtain t words full_codes where
    a: "ctc_align demo_interface [97] t (language demo_interface) = Inr words"
    and c: "audio_codec_encode demo_interface (map aw_audio words)
              (ctc_sample_rate demo_interface) = Inr full_codes"
    and tx: "speaker_text ?spk = t"
    and ln: "length (speaker_words ?spk) = length words"
    by (elim exE conjE) (rule that; assumption)
  from tx ln have "t = [104, 105]" and "length words = 2"
    by simp_all
  with a c have "\<exists>t words full_codes.
        ctc_align demo_interface [97] t (language demo_interface) = Inr words
      \<and> audio_codec_encode demo_interface (map aw_audio words) (ctc_sample_rate demo_interface)
          = Inr full_codes
      \<and> t = [104, 105] \<and> length words = 2"
    by (intro exI [of _ t] exI [of _ words] exI [of _ full_codes] conjI)
  with run show ?thesis by (rule conjI)
qed

text \<open>
  C4, as it is stated, fails where the slice of a word is empty: the entry then carries
  the code 1 instead of the slice. In the small instance the second word ends
  in frame 2 as the first does, so its slice is \<open>codes[2:2]\<close>.
\<close>

theorem create_speaker_codes_counterexample:
  "map entry_codes (speaker_words (projr (fst
       (create_speaker demo_interface [97] (Some [104, 105]) [116] None)))) = [[7, 8], [1]]
   \<and> map (\<lambda>w. frame_index demo_interface (aw_x1 w) (ctc_sample_rate demo_interface))
         (projr (ctc_align demo_interface [97] [104, 105] (language demo_interface))) = [2, 2]
   \<and> audio_codec_encode demo_interface [[4, 2], [3]] (ctc_sample_rate demo_interface)
       = Inr [[[7, 8, 9]]]
   \<and> [py_slice [7, 8, 9 :: int] 0 2, py_slice [7, 8, 9 :: int] 2 2] = [[7, 8], []]"
  by (simp add: create_speaker_given demo_interface_def lib_def and_then_Inr and_then_emit
      py_slice_def Let_def)

text \<open>
  C5. \<open>create_speaker\<close> raises ValueError("Transcript text is empty") exactly when the
  transcript, passed in or given by whisper, is empty; no forced alignment and no audio
  encoding has been performed by then.
\<close>

theorem create_speaker_empty_transcript:
  "(fst (create_speaker self audio_path transcript whisper_model whisper_device)
      = Inl (ValueError Transcript_text_is_empty)
    \<longleftrightarrow> (transcript = Some []
         \<or> transcript = None
           \<and> transcribe_once self audio_path whisper_model whisper_device = Inr []))
   \<and> (fst (create_speaker self audio_path transcript whisper_model whisper_device)
        = Inl (ValueError Transcript_text_is_empty)
      \<longrightarrow> \<not> list_ex alignment_or_encoding
            (snd (create_speaker self audio_path transcript whisper_model whisper_device)))"
proof -
  have given: "(fst (create_speaker self audio_path (Some t) whisper_model whisper_device)
        = Inl (ValueError Transcript_text_is_empty) \<longleftrightarrow> t = [])
      \<and> (t = [] \<longrightarrow> snd (create_speaker self audio_path (Some t) whisper_model whisper_device) = [])"
    for t
  proof (cases "t = []")
    case True
    then show ?thesis by (simp add: create_speaker_given)
  next
    case False
    from create_speaker_given_result [OF False, of self audio_path whisper_model whisper_device]
    have "fst (create_speaker self audio_path (Some t) whisper_model whisper_device)
        \<noteq> Inl (ValueError Transcript_text_is_empty)"
      by auto
    with False show ?thesis by simp
  qed
  show ?thesis
  proof (cases transcript)
    case (Some t)
    with given [of t] show ?thesis by auto
  next
    case None
    show ?thesis
    proof (cases "transcribe_once self audio_path whisper_model whisper_device")
      case (Inl c)
      with None show ?thesis by (simp add: create_speaker_transcribed)
    next
      case (Inr t)
      with None given [of t] show ?thesis
        by (auto simp: create_speaker_transcribed after_def)
    qed
  qed
qed

theorem create_speaker_empty_transcript_witness:
  "create_speaker demo_interface [97] None [116] None
     = (Inl (ValueError Transcript_text_is_empty),
        [Logger_info Transcription_not_provided, Whisper_transcribe [97]])
   \<and> \<not> list_ex alignment_or_encoding (snd (create_speaker demo_interface [97] None [116] None))
   \<and> fst (create_speaker demo_interface [97] (Some [104, 105]) [116] None)
       \<noteq> Inl (ValueError Transcript_text_is_empty)"
proof -
  have t: "transcribe_once demo_interface [97] [116] None = Inr []"
    by (simp add: demo_interface_def)
  have run: "create_speaker demo_interface [97] None [116] None
     = (Inl (ValueError Transcript_text_is_empty),
        [Logger_info Transcription_not_provided, Whisper_transcribe [97]])"
    by (simp add: create_speaker_transcribed create_speaker_given t)
  from create_speaker_empty_transcript [of demo_interface "[97]" None "[116]" None]
    create_speaker_empty_transcript [of demo_interface "[97]" "Some [104, 105]" "[116]" None]
    t run
  show ?thesis by simp
qed

subsection \<open>The chunk assembler\<close>

lemma yielded_append [simp]: "yielded (xs @ ys) = yielded xs @ yielded ys"
  by (induction xs rule: yielded.induct) simp_all

lemma yielded_events [simp]: "yielded (map Event evs) = []"
  by (induction evs) simp_all

lemma priv_create_audio_chunk_cases:
  obtains (Raises) e evs where "priv_create_audio_chunk self b idx = (Inl e, evs)"
      and "\<forall>a. fst (get_audio self b) \<noteq> Inr (Some a)"
  | (Chunk) a evs where
      "priv_create_audio_chunk self b idx
         = (Inr (ModelOutput (Some (drop idx a)) (audio_codec_sr self), length a), evs)"
      and "fst (get_audio self b) = Inr (Some a)"
proof (cases "get_audio self b" rule: eff_cases)
  case (Raise e evs)
  then show ?thesis by (intro Raises [of e evs]) (simp_all add: priv_create_audio_chunk_def)
next
  case (Return x evs)
  show ?thesis
  proof (cases x)
    case None
    with Return show ?thesis
      by (intro Raises [of AttributeError evs])
        (simp_all add: priv_create_audio_chunk_def and_then_Inr)
  next
    case (Some a)
    with Return show ?thesis
      by (intro Chunk [of a evs]) (simp_all add: priv_create_audio_chunk_def and_then_Inr)
  qed
qed

lemma expected_chunks_stops:
  "\<forall>a. fst (get_audio self b) \<noteq> Inr (Some a) \<Longrightarrow> expected_chunks self start (b # bs) = []"
  by (auto split: sum.splits option.splits)

lemma expected_chunks_goes_on:
  "fst (get_audio self b) = Inr (Some a) \<Longrightarrow>
   expected_chunks self start (b # bs)
     = ModelOutput (Some (drop start a)) (audio_codec_sr self) # expected_chunks self (length a) bs"
  by simp

lemma decoded_length_Some: "fst (get_audio self b) = Inr (Some a) \<Longrightarrow> decoded_length self b = length a"
  by (simp add: decoded_length_def)

declare expected_chunks.simps(2) [simp del]

lemma length_expected_chunks: "length (expected_chunks self start bs) \<le> length bs"
proof (induction bs arbitrary: start)
  case Nil
  then show ?case by simp
next
  case (Cons b bs)
  show ?case
  proof (cases "\<exists>a. fst (get_audio self b) = Inr (Some a)")
    case True
    then obtain a where "fst (get_audio self b) = Inr (Some a)" by blast
    with Cons.IH [of "length a"] show ?thesis by (simp add: expected_chunks_goes_on)
  next
    case False
    then show ?thesis by (simp add: expected_chunks_stops)
  qed
qed

lemma expected_chunks_append:
  "length (expected_chunks self start bs) = length bs \<Longrightarrow>
   expected_chunks self start (bs @ bs')
     = expected_chunks self start bs
       @ expected_chunks self (start_index_after self start bs) bs'"
proof (induction bs arbitrary: start)
  case Nil
  then show ?case by (simp add: start_index_after_def)
next
  case (Cons b bs)
  show ?case
  proof (cases "\<exists>a. fst (get_audio self b) = Inr (Some a)")
    case True
    then obtain a where a: "fst (get_audio self b) = Inr (Some a)" by blast
    with Cons.prems have "length (expected_chunks self (length a) bs) = length bs"
      by (simp add: expected_chunks_goes_on)
    from Cons.IH [OF this] a show ?thesis
      by (simp add: expected_chunks_goes_on start_index_after_def decoded_length_Some)
  next
    case False
    with Cons.prems show ?thesis by (simp add: expected_chunks_stops)
  qed
qed

lemma expected_chunks_cut:
  "length (expected_chunks self start bs) < length bs \<Longrightarrow>
   expected_chunks self start (bs @ bs') = expected_chunks self start bs"
proof (induction bs arbitrary: start)
  case Nil
  then show ?case by simp
next
  case (Cons b bs)
  show ?case
  proof (cases "\<exists>a. fst (get_audio self b) = Inr (Some a)")
    case True
    then obtain a where a: "fst (get_audio self b) = Inr (Some a)" by blast
    with Cons.prems have "length (expected_chunks self (length a) bs) < length bs"
      by (simp add: expected_chunks_goes_on)
    from Cons.IH [OF this] a show ?thesis by (simp add: expected_chunks_goes_on)
  next
    case False
    then show ?thesis by (simp add: expected_chunks_stops)
  qed
qed

text \<open>The buffers still due when \<open>pre\<close> is in the buffer and \<open>rest\<close> is to come.\<close>

lemma due_Nil:
  "filter (chunk_due cs e) (map ((@) pre) (tl (prefixes []))) = []"
  by simp

lemma due_Cons:
  "filter (chunk_due cs e) (map ((@) pre) (tl (prefixes (t # rest))))
     = (if chunk_due cs e (pre @ [t]) then [pre @ [t]] else [])
       @ filter (chunk_due cs e) (map ((@) (pre @ [t])) (tl (prefixes rest)))"
proof -
  have "prefixes rest = [] # tl (prefixes rest)"
    by (cases rest) simp_all
  then have "tl (prefixes (t # rest)) = [t] # map ((#) t) (tl (prefixes rest))"
    by (metis list.sel(3) list.simps(9) prefixes.simps(2))
  moreover have "(\<lambda>x. pre @ t # x) = (@) (pre @ [t])"
    by (simp add: fun_eq_iff)
  ultimately show ?thesis by (simp add: comp_def)
qed

lemma counter_step:
  fixes cs :: int
  assumes "0 < cs" and "chunks = int (count_list pre e) mod cs"
  shows "((if t = e then chunks + 1 else chunks) = cs) = chunk_due cs e (pre @ [t])"
    and "(if t = e then chunks + 1 else chunks) \<noteq> cs \<Longrightarrow>
         (if t = e then chunks + 1 else chunks) = int (count_list (pre @ [t]) e) mod cs"
    and "chunk_due cs e (pre @ [t]) \<Longrightarrow> 0 = int (count_list (pre @ [t]) e) mod cs"
proof -
  let ?n = "int (count_list pre e)"
  have bounds: "0 \<le> chunks" "chunks < cs" using assms by simp_all
  have count: "int (count_list (pre @ [t]) e) = (if t = e then ?n + 1 else ?n)"
    by (induction pre) simp_all
  have step: "(?n mod cs + 1 = cs) = (cs dvd ?n + 1)"
  proof
    assume "?n mod cs + 1 = cs"
    then have "(?n mod cs + 1) mod cs = 0" by simp
    then have "(?n + 1) mod cs = 0" by (simp add: mod_add_left_eq)
    then show "cs dvd ?n + 1" by (simp add: dvd_eq_mod_eq_0)
  next
    assume "cs dvd ?n + 1"
    then have "(?n mod cs + 1) mod cs = 0" by (simp add: dvd_eq_mod_eq_0 mod_add_left_eq)
    moreover have "0 \<le> ?n mod cs" "?n mod cs < cs"
      using assms(1) by simp_all
    then have "0 < ?n mod cs + 1" "?n mod cs + 1 \<le> cs"
      by linarith+
    ultimately show "?n mod cs + 1 = cs"
      by (metis dvd_eq_mod_eq_0 zdvd_imp_le dual_order.antisym)
  qed
  show due: "((if t = e then chunks + 1 else chunks) = cs) = chunk_due cs e (pre @ [t])"
    using bounds step by (auto simp: chunk_due_def count assms(2))
  show "(if t = e then chunks + 1 else chunks) = int (count_list (pre @ [t]) e) mod cs"
    if "(if t = e then chunks + 1 else chunks) \<noteq> cs"
  proof (cases "t = e")
    case True
    with that bounds have "chunks + 1 < cs" by simp
    then have "(chunks + 1) mod cs = chunks + 1" using bounds by simp
    moreover have "(?n + 1) mod cs = (?n mod cs + 1) mod cs"
      by (simp add: mod_add_left_eq)
    ultimately have "(?n + 1) mod cs = chunks + 1"
      by (simp only: assms(2))
    then have "chunks + 1 = (if t = e then ?n + 1 else ?n) mod cs"
      using True by simp
    then show ?thesis unfolding count using True by simp

  next
    case False
    then show ?thesis by (simp add: count assms(2))
  qed
  show "0 = int (count_list (pre @ [t]) e) mod cs" if "chunk_due cs e (pre @ [t])"
  proof -
    from that have "cs dvd int (count_list (pre @ [t]) e)"
      unfolding chunk_due_def by blast
    then have "int (count_list (pre @ [t]) e) mod cs = 0"
      using dvd_eq_mod_eq_0 by blast
    then show ?thesis by (rule sym)
  qed
qed

text \<open>
  The loop of the assembler against the buffers that are due: it yields the chunks owed
  for them, as far as they decode, and ends either with an exception, before all of them
  were served, or with the whole input in the buffer and \<open>start_index\<close> at the length of
  the audio decoded last.
\<close>

lemma stream_loop_spec:
  assumes cs: "0 < cs"
  shows "chunks = int (count_list pre e) mod cs \<Longrightarrow>
     stream_loop self e cs False rest pre start chunks = (items, r) \<Longrightarrow>
     yielded items
       = expected_chunks self start
           (filter (chunk_due cs e) (map ((@) pre) (tl (prefixes rest))))
     \<and> (case r of
          Inl err \<Rightarrow>
            length (yielded items)
              < length (filter (chunk_due cs e) (map ((@) pre) (tl (prefixes rest))))
        | Inr (buf, start', chunks') \<Rightarrow>
            buf = pre @ rest
            \<and> length (yielded items)
                = length (filter (chunk_due cs e) (map ((@) pre) (tl (prefixes rest))))
            \<and> start' = start_index_after self start
                 (filter (chunk_due cs e) (map ((@) pre) (tl (prefixes rest)))))"
proof (induction rest arbitrary: pre start chunks items r)
  case Nil
  then show ?case by (auto simp: start_index_after_def)
next
  case (Cons t rest)
  let ?b = "pre @ [t]"
  let ?c = "if t = e then chunks + 1 else chunks"
  define D where "D = filter (chunk_due cs e) (map ((@) ?b) (tl (prefixes rest)))"
  note step = counter_step [OF cs Cons.prems(1), of t]
  have whole: "?b @ rest = pre @ t # rest" by simp
  note IH = Cons.IH [of _ ?b, folded D_def, unfolded whole]
  show ?case
  proof (cases "?c = cs")
    case False
    with step(1) have nd: "\<not> chunk_due cs e ?b" by simp
    have D: "filter (chunk_due cs e) (map ((@) pre) (tl (prefixes (t # rest)))) = D"
      by (simp only: due_Cons D_def nd if_False append_Nil)
    from False Cons.prems(2)
    have run: "stream_loop self e cs False rest ?b start ?c = (items, r)"
      by (simp add: Let_def)
    from IH [OF step(2) [OF False] run] show ?thesis
      unfolding D .
  next
    case True
    with step(1) have due: "chunk_due cs e ?b" by simp
    have D: "filter (chunk_due cs e) (map ((@) pre) (tl (prefixes (t # rest)))) = ?b # D"
      by (simp only: due_Cons D_def due if_True append_Cons append_Nil)
    show ?thesis
    proof (cases rule: priv_create_audio_chunk_cases [of self ?b start])
      case (Raises e' evs)
      with True Cons.prems(2) have "items = map Event evs" and "r = Inl e'"
        by (simp_all add: Let_def)
      with Raises(2) show ?thesis
        unfolding D by (simp add: expected_chunks_stops)
    next
      case (Chunk a evs)
      obtain items' r' where
        run: "stream_loop self e cs False rest ?b (length a) 0 = (items', r')"
        by (cases "stream_loop self e cs False rest ?b (length a) 0") blast
      with True Chunk(1) Cons.prems(2)
      have items: "items
          = map Event evs @ Yield (ModelOutput (Some (drop start a)) (audio_codec_sr self)) # items'"
        and r: "r = r'"
        by (simp_all add: Let_def)
      from IH [OF step(3) [OF due] run]
      have y: "yielded items' = expected_chunks self (length a) D"
        and c: "case r' of
            Inl err \<Rightarrow> length (yielded items') < length D
          | Inr (buf, start', chunks') \<Rightarrow>
              buf = pre @ t # rest \<and> length (yielded items') = length D
              \<and> start' = start_index_after self (length a) D"
        by (rule conjunct1, rule conjunct2)
      have after: "start_index_after self (length a) D = start_index_after self start (?b # D)"
        using Chunk(2) by (simp add: start_index_after_def decoded_length_Some)
      have len: "length (yielded items) = Suc (length (yielded items'))"
        unfolding items by simp
      from y have "yielded items = expected_chunks self start (?b # D)"
        unfolding items by (simp add: expected_chunks_goes_on [OF Chunk(2)])
      moreover from c have "case r of
            Inl err \<Rightarrow> length (yielded items) < length (?b # D)
          | Inr (buf, start', chunks') \<Rightarrow>
              buf = pre @ t # rest \<and> length (yielded items) = length (?b # D)
              \<and> start' = start_index_after self start (?b # D)"
        unfolding r len after [symmetric] by (cases r') auto
      ultimately show ?thesis unfolding D by (rule conjI)
    qed
  qed
qed

lemma due_from_start:
  "filter (chunk_due cs e) (map ((@) []) (tl (prefixes tokens)))
     = filter (chunk_due cs e) (prefixes tokens)"
proof -
  have "prefixes tokens = [] # tl (prefixes tokens)"
    by (cases tokens) simp_all
  moreover have "\<not> chunk_due cs e []"
    by (simp add: chunk_due_def)
  ultimately have "filter (chunk_due cs e) (prefixes tokens)
      = filter (chunk_due cs e) (tl (prefixes tokens))"
    by (metis filter.simps(2))
  moreover have "(@) [] = (\<lambda>x :: token list. x)"
    by (simp add: fun_eq_iff)
  ultimately show ?thesis by simp
qed

text \<open>
  The whole generator, once the setup has succeeded and when the backend's stream ends
  without an exception.
\<close>

lemma priv_generate_stream_run:
  assumes size: "4 \<le> chunk_size"
    and prepared: "stream_setup cls self text speaker max_length
                  = (Inr (code_end_token, input_ids), evs)"
    and backend: "model_generate_stream self
                    \<lparr>bc_input_ids = input_ids,
                     bc_config = \<lparr>gc_temperature = temperature,
                                  gc_repetition_penalty = repetition_penalty,
                                  gc_max_length = max_length,
                                  gc_additional_gen_config = additional_gen_config\<rparr>,
                     bc_additional_dynamic_generator_config = None\<rparr> = (tokens, None)"
    and run: "priv_generate_stream cls self text speaker temperature repetition_penalty
                max_length additional_gen_config additional_dynamic_generator_config
                chunk_size False = (items, status)"
  shows "yielded items
           = expected_chunks self 0 (chunk_buffers chunk_size code_end_token tokens)
       \<and> (status = None \<longleftrightarrow>
            length (yielded items) = length (chunk_buffers chunk_size code_end_token tokens))"
proof -
  let ?F = "filter (chunk_due chunk_size code_end_token) (prefixes tokens)"
  let ?last = "if tokens = [] then [] else [tokens]"
  have buffers: "chunk_buffers chunk_size code_end_token tokens = ?F @ ?last"
    by (simp add: chunk_buffers_def)
  obtain litems lr where
    loop: "stream_loop self code_end_token chunk_size False tokens [] 0 0 = (litems, lr)"
    by (cases "stream_loop self code_end_token chunk_size False tokens [] 0 0") blast
  from size have pos: "0 < chunk_size" by simp
  have "(0 :: int) = int (count_list [] code_end_token) mod chunk_size" by simp
  from stream_loop_spec [OF pos this loop]
  have y: "yielded litems = expected_chunks self 0 ?F"
    and c: "case lr of
        Inl err \<Rightarrow> length (yielded litems) < length ?F
      | Inr (buf, start', chunks') \<Rightarrow>
          buf = [] @ tokens \<and> length (yielded litems) = length ?F
          \<and> start' = start_index_after self 0 ?F"
    unfolding due_from_start by (rule conjunct1, rule conjunct2)
  from size have nsmall: "\<not> chunk_size < 4" by simp
  note unfold = run [unfolded priv_generate_stream_def, simplified nsmall if_False prepared backend
      loop Let_def prod.case sum.case]
  show ?thesis
  proof (cases lr)
    case (Inl e)
    with unfold have res: "yielded items = yielded litems" "status = Some e"
      by auto
    from Inl c have short: "length (yielded litems) < length ?F" by simp
    with y have "expected_chunks self 0 (?F @ ?last) = expected_chunks self 0 ?F"
      by (simp add: expected_chunks_cut)
    with res y short show ?thesis unfolding buffers by simp
  next
    case (Inr st)
    obtain buf start' chunks' where st: "st = (buf, start', chunks')"
      by (cases st) blast
    from Inr st c have buf: "buf = tokens"
      and full: "length (yielded litems) = length ?F"
      and start': "start' = start_index_after self 0 ?F"
      by simp_all
    from full y have len: "length (expected_chunks self 0 ?F) = length ?F" by simp
    note app = expected_chunks_append [OF len, of ?last, folded start']
    show ?thesis
    proof (cases "tokens = []")
      case True
      with unfold Inr st buf have "yielded items = yielded litems" "status = None"
        by auto
      with y full True show ?thesis unfolding buffers by simp
    next
      case False
      show ?thesis
      proof (cases rule: priv_create_audio_chunk_cases [of self tokens start'])
        case (Raises e' evs')
        with unfold Inr st buf False
        have res: "yielded items = yielded litems" "status = Some e'"
          by auto
        from Raises(2) have "expected_chunks self start' [tokens] = []"
          by (rule expected_chunks_stops)
        with app False have "expected_chunks self 0 (?F @ ?last) = expected_chunks self 0 ?F"
          by simp
        with res y full False show ?thesis unfolding buffers by simp
      next
        case (Chunk a evs')
        with unfold Inr st buf False
        have res: "yielded items
            = yielded litems @ [ModelOutput (Some (drop start' a)) (audio_codec_sr self)]"
          "status = None"
          by auto
        from Chunk(2) have "expected_chunks self start' [tokens]
            = [ModelOutput (Some (drop start' a)) (audio_codec_sr self)]"
          by (simp add: expected_chunks_goes_on)
        with app False have "expected_chunks self 0 (?F @ ?last)
            = expected_chunks self 0 ?F
              @ [ModelOutput (Some (drop start' a)) (audio_codec_sr self)]"
          by simp
        with res y full False show ?thesis unfolding buffers by simp
      qed
    qed
  qed
qed

text \<open>
  C2 fails on the code when a buffer for which a chunk is owed holds no audio token. The
  backend of \<open>silent_interface\<close> streams four \<open>code_end\<close> markers, one audio token
  and one more marker. With \<open>chunk_size=4\<close> and \<open>stream_segments=False\<close> a chunk is owed
  after the fourth marker and another for the buffer that remains. \<open>_generate_stream\<close>
  yields neither: \<open>get_audio\<close> returns \<open>None\<close> for the buffer of four markers, and
  \<open>audio.size()\<close> in \<open>_create_audio_chunk\<close> raises AttributeError, which ends the
  generator.
\<close>

theorem priv_generate_stream_no_audio:
  "chunk_buffers 4 0 [0, 0, 0, 0, 5, 0] = [[0, 0, 0, 0], [0, 0, 0, 0, 5, 0]]
   \<and> get_audio silent_interface [0, 0, 0, 0] = (Inr None, [Logger_warning_no_audio])
   \<and> priv_generate_stream InterfaceHF silent_interface [104, 105] None 0.1 1.1 (Some 4096) [] [] 4
       False
     = ([Event (Model_generate_stream
                 \<lparr>bc_input_ids = Tensor_ids [104, 105],
                  bc_config = \<lparr>gc_temperature = 0.1, gc_repetition_penalty = 1.1,
                               gc_max_length = Some 4096, gc_additional_gen_config = []\<rparr>,
                  bc_additional_dynamic_generator_config = None\<rparr>),
         Event Logger_warning_no_audio],
        Some AttributeError)
   \<and> yielded (fst (priv_generate_stream InterfaceHF silent_interface [104, 105] None 0.1 1.1
                     (Some 4096) [] [] 4 False)) = []"
proof -
  let ?call = "\<lparr>bc_input_ids = Tensor_ids [104, 105],
                  bc_config = \<lparr>gc_temperature = 0.1, gc_repetition_penalty = 1.1,
                               gc_max_length = Some 4096, gc_additional_gen_config = []\<rparr>,
                  bc_additional_dynamic_generator_config = None\<rparr>"
  have buffers: "chunk_buffers 4 0 [0, 0, 0, 0, 5, 0] = [[0, 0, 0, 0], [0, 0, 0, 0, 5, 0]]"
    by (simp add: chunk_buffers_def chunk_due_def)
  have prepared: "stream_setup InterfaceHF silent_interface [104, 105] None (Some 4096)
      = (Inr (0, Tensor_ids [104, 105]), [])"
    by (simp add: stream_setup_def check_generation_max_length_def prepare_prompt_def
        InterfaceHF_prepare_prompt_def silent_interface_def demo_interface_def lib_def
        and_then_Inr)
  have backend: "model_generate_stream silent_interface ?call = ([0, 0, 0, 0, 5, 0], None)"
    by (simp add: silent_interface_def)
  have audio: "get_audio silent_interface [0, 0, 0, 0] = (Inr None, [Logger_warning_no_audio])"
    by (simp add: get_audio_def silent_interface_def demo_interface_def lib_def and_then_Inr
        and_then_emit)
  have chunk: "priv_create_audio_chunk silent_interface [0, 0, 0, 0] 0
      = (Inl AttributeError, [Logger_warning_no_audio])"
    by (simp add: priv_create_audio_chunk_def audio and_then_Inr raise_def)
  have loop: "stream_loop silent_interface 0 4 False [0, 0, 0, 0, 5, 0] [] 0 0
      = ([Event Logger_warning_no_audio], Inl AttributeError)"
    by (simp add: chunk Let_def)
  have run: "priv_generate_stream InterfaceHF silent_interface [104, 105] None 0.1 1.1
      (Some 4096) [] [] 4 False
    = ([Event (Model_generate_stream ?call), Event Logger_warning_no_audio],
       Some AttributeError)"
    by (simp add: priv_generate_stream_def prepared backend loop del: stream_loop.simps)
  from buffers audio run show ?thesis by simp
qed

end
